theory Spec2Isabelle
  imports Complex_Main
begin

section \<open>Errors\<close>

text \<open>
  The exceptions the two modules can raise. \<open>ValueError\<close> carries the message of
  \<^verbatim>\<open>raise ValueError(f"Unsupported index type: {self.index_type}")\<close>;
  \<open>OverflowError\<close> is what Python raises when an integer too large for a double
  is multiplied by the float \<^verbatim>\<open>0.7\<close>; \<open>IndexError\<close> is a list index out of range.
  \<open>FileNotFoundError\<close> and \<open>FileExistsError\<close> are the failures of
  \<^verbatim>\<open>Path.mkdir(exist_ok=True)\<close>, \<open>ModelLoadFailure\<close> the embedding model that does
  not load. \<open>DimensionMismatch\<close> and \<open>AssertionError\<close> are the failures of the index
  library: vectors of the wrong length, and a query for no neighbour at all.
  \<open>InvalidArgument\<close> and \<open>ArgumentMismatch\<close> are the two validation errors the
  design document names; no line of the source raises them.
\<close>

datatype error =
    ValueError string
  | OverflowError
  | IndexError
  | FileNotFoundError
  | FileExistsError
  | ModelLoadFailure string
  | DimensionMismatch
  | AssertionError
  | InvalidArgument
  | ArgumentMismatch

section \<open>Python strings\<close>

text \<open>
  A text is a \<open>string\<close>: one \<open>char\<close> per code point, which covers the code points
  below 256. \<^verbatim>\<open>s[i:j]\<close> never raises: a negative bound counts from the end, and
  both bounds are clamped to the string.
\<close>

definition py_bound :: "nat \<Rightarrow> int \<Rightarrow> nat" where
  "py_bound n i = (if i < 0 then nat (int n + i) else min n (nat i))"

definition py_slice :: "'a list \<Rightarrow> int \<Rightarrow> int \<Rightarrow> 'a list" where
  "py_slice s i j =
     (let lo = py_bound (length s) i; hi = py_bound (length s) j
      in take (hi - lo) (drop lo s))"

text \<open>
  \<^verbatim>\<open>xs[i]\<close>: a negative index counts from the end; an index outside the list
  raises.
\<close>

definition py_index :: "'a list \<Rightarrow> int \<Rightarrow> error + 'a" where
  "py_index xs i =
     (if 0 \<le> i \<and> i < int (length xs) then Inr (xs ! nat i)
      else if i < 0 \<and> - int (length xs) \<le> i then Inr (xs ! nat (int (length xs) + i))
      else Inl IndexError)"

text \<open>
  \<^verbatim>\<open>s.rfind(sub)\<close>: the highest index at which \<open>sub\<close> occurs in \<open>s\<close>, or \<open>-1\<close>.
\<close>

definition occurs_at :: "string \<Rightarrow> string \<Rightarrow> nat \<Rightarrow> bool" where
  "occurs_at s sub i = (i + length sub \<le> length s \<and> take (length sub) (drop i s) = sub)"

definition rfind :: "string \<Rightarrow> string \<Rightarrow> int" where
  "rfind s sub =
     (case filter (occurs_at s sub) (rev [0..<Suc (length s)]) of
        [] \<Rightarrow> - 1
      | i # _ \<Rightarrow> int i)"

text \<open>
  \<^verbatim>\<open>s.strip()\<close> removes the whitespace at both ends. Below 256 the code points
  Python counts as whitespace are 9 to 13, 28 to 32, 133 and 160.
\<close>

definition is_space :: "char \<Rightarrow> bool" where
  "is_space c =
     (let n = (of_char c :: nat)
      in (9 \<le> n \<and> n \<le> 13) \<or> (28 \<le> n \<and> n \<le> 32) \<or> n = 133 \<or> n = 160)"

definition strip :: "string \<Rightarrow> string" where
  "strip s = rev (dropWhile is_space (rev (dropWhile is_space s)))"

section \<open>The float product \<^verbatim>\<open>chunk_size * 0.7\<close>\<close>

text \<open>
  The source compares an integer position with \<^verbatim>\<open>chunk_size * 0.7\<close>, a product of
  IEEE doubles. The double \<^verbatim>\<open>0.7\<close> is exactly \<open>6305039478318694 / 2 ^ 53\<close>. Python
  converts \<open>chunk_size\<close> to the nearest double (ties to even, \<open>OverflowError\<close> from
  \<open>2 ^ 1024\<close> on), multiplies, and rounds the product to 53 significant bits again.
  \<open>mul_0_7\<close> returns the numerator of that double over \<open>2 ^ 53\<close>; the comparison of an
  \<open>int\<close> with a double is exact in Python.
\<close>

function bit_length :: "int \<Rightarrow> nat" where
  "bit_length n = (if n \<le> 0 then 0 else Suc (bit_length (n div 2)))"
  by pat_completeness auto
termination
  by (relation "measure nat") auto

declare bit_length.simps [simp del]

definition round53 :: "int \<Rightarrow> int" where
  "round53 n =
     (let b = bit_length n
      in if b \<le> 53 then n
         else let sh = b - 53;
                  m = n div 2 ^ sh;
                  r = n mod 2 ^ sh;
                  h = 2 ^ (sh - 1);
                  m' = (if r > h \<or> (r = h \<and> odd m) then m + 1 else m)
              in m' * 2 ^ sh)"

definition mul_0_7 :: "int \<Rightarrow> error + int" where
  "mul_0_7 n =
     (let a = round53 \<bar>n\<bar>
      in if a \<ge> 2 ^ 1024 then Inl OverflowError
         else Inr (sgn n * round53 (a * 6305039478318694)))"

definition gt_0_7 :: "int \<Rightarrow> int \<Rightarrow> error + bool" where
  \<comment> \<open>\<^verbatim>\<open>last_punct > chunk_size * 0.7\<close>\<close>
  "gt_0_7 last_punct chunk_size =
     (case mul_0_7 chunk_size of
        Inl e \<Rightarrow> Inl e
      | Inr t \<Rightarrow> Inr (last_punct * 2 ^ 53 > t))"

section \<open>DocumentParser.chunk_text\<close>

definition sentence_endings :: "string list" where
  "sentence_endings =
     [[CHR ''.'', CHR '' ''], [CHR ''.'', CHR 0x0A],
      [CHR ''!'', CHR '' ''], [CHR ''!'', CHR 0x0A],
      [CHR ''?'', CHR '' ''], [CHR ''?'', CHR 0x0A]]"

text \<open>
  The \<^verbatim>\<open>for punct in [...]\<close> loop: the first pair of the list whose last occurrence
  in the chunk lies beyond the threshold decides, and the loop breaks there.
  \<open>Inr None\<close> is the loop running to its end without a break.
\<close>

fun find_break :: "string \<Rightarrow> int \<Rightarrow> string list \<Rightarrow> error + int option" where
  "find_break chunk chunk_size [] = Inr None"
| "find_break chunk chunk_size (punct # puncts) =
     (let last_punct = rfind chunk punct
      in case gt_0_7 last_punct chunk_size of
           Inl e \<Rightarrow> Inl e
         | Inr True \<Rightarrow> Inr (Some last_punct)
         | Inr False \<Rightarrow> find_break chunk chunk_size puncts)"

text \<open>
  One pass of the \<^verbatim>\<open>while\<close> body up to \<^verbatim>\<open>chunks.append\<close>: the chunk that is
  emitted (before \<open>strip\<close>) and the value of \<open>end\<close> after the pass.
\<close>

definition window :: "string \<Rightarrow> int \<Rightarrow> int \<Rightarrow> error + (string \<times> int)" where
  "window text chunk_size start =
     (let end0 = start + chunk_size;
          chunk = py_slice text start end0
      in if end0 < int (length text) then
           (case find_break chunk chunk_size sentence_endings of
              Inl e \<Rightarrow> Inl e
            | Inr None \<Rightarrow> Inr (chunk, end0)
            | Inr (Some last_punct) \<Rightarrow>
                (let chunk' = py_slice chunk 0 (last_punct + 1)
                 in Inr (chunk', start + int (length chunk'))))
         else Inr (chunk, end0))"

text \<open>
  The \<^verbatim>\<open>while start < len(text)\<close> loop. It may run forever, so it is a partial
  function: \<open>None\<close> is the loop that never returns, \<open>Some (Inl e)\<close> an exception,
  \<open>Some (Inr chunks)\<close> the returned list.
\<close>

partial_function (option) chunk_loop ::
  "string \<Rightarrow> int \<Rightarrow> int \<Rightarrow> int \<Rightarrow> string list \<Rightarrow> (error + string list) option" where
  "chunk_loop text chunk_size overlap start chunks =
     (if start < int (length text) then
        (case window text chunk_size start of
           Inl e \<Rightarrow> Some (Inl e)
         | Inr (chunk, end1) \<Rightarrow>
             chunk_loop text chunk_size overlap (end1 - overlap) (chunks @ [strip chunk]))
      else Some (Inr chunks))"

declare chunk_loop.simps [code]

definition chunk_text :: "string \<Rightarrow> int \<Rightarrow> int \<Rightarrow> (error + string list) option" where
  "chunk_text text chunk_size overlap =
     (if int (length text) \<le> chunk_size then Some (Inr [text])
      else chunk_loop text chunk_size overlap 0 [])"

subsection \<open>The cut point\<close>

text \<open>
  The specification's wording of the cut: the last (maximal-position) occurrence in
  the window of any of the six pairs, used when it lies beyond the threshold.
  \<open>last_terminator\<close> and \<open>spec_cut\<close> follow those words, not the source.
\<close>

definition last_terminator :: "string \<Rightarrow> int" where
  "last_terminator chunk = foldr max (map (rfind chunk) sentence_endings) (- 1)"

definition spec_cut :: "string \<Rightarrow> int \<Rightarrow> error + int option" where
  "spec_cut chunk chunk_size =
     (case gt_0_7 (last_terminator chunk) chunk_size of
        Inl e \<Rightarrow> Inl e
      | Inr b \<Rightarrow> Inr (if b then Some (last_terminator chunk) else None))"

text \<open>
  The pair that decides the cut in the source: the first pair, in the order of the
  list, whose last occurrence in the chunk lies beyond the threshold.
\<close>

definition deciding_pair :: "string \<Rightarrow> int \<Rightarrow> string option" where
  "deciding_pair chunk chunk_size =
     find (\<lambda>punct. gt_0_7 (rfind chunk punct) chunk_size = Inr True) sentence_endings"

subsection \<open>The windows of a run\<close>

text \<open>
  \<open>windows_from text chunk_size overlap start ws\<close>: the passes of the loop from
  \<open>start\<close> on emit exactly the windows \<open>ws\<close>, each with its chunk before \<open>strip\<close>
  and its value of \<open>end\<close>, and the loop then stops.
\<close>

fun windows_from :: "string \<Rightarrow> int \<Rightarrow> int \<Rightarrow> int \<Rightarrow> (string \<times> int) list \<Rightarrow> bool" where
  "windows_from text chunk_size overlap start [] = (\<not> start < int (length text))"
| "windows_from text chunk_size overlap start ((chunk, end1) # ws) =
     (start < int (length text) \<and> window text chunk_size start = Inr (chunk, end1) \<and>
      windows_from text chunk_size overlap (end1 - overlap) ws)"

text \<open>
  The non-overlapping spans of a list of chunks that overlap by \<open>overlap\<close>
  characters: the first chunk whole, each later chunk without its first \<open>overlap\<close>
  characters.
\<close>

definition non_overlapping_spans :: "int \<Rightarrow> string list \<Rightarrow> string list" where
  "non_overlapping_spans overlap chunks =
     (case chunks of [] \<Rightarrow> [] | c # cs \<Rightarrow> c # map (drop (nat overlap)) cs)"

section \<open>The embedder and the similarity index\<close>

type_synonym vector = "real list"

text \<open>
  Modelled from the spec: the sentence-transformer model is not part of the sources.
  Section 4.2 gives its contract: \<open>encode\<close> maps a list of strings to one vector per
  string, the same vector for the same string. An embedder is therefore a function
  from a string to its vector, and \<open>encode\<close> maps it over the batch.
\<close>

type_synonym embedder = "string \<Rightarrow> vector"

definition encode :: "embedder \<Rightarrow> string list \<Rightarrow> vector list" where
  "encode emb texts = map emb texts"

text \<open>
  Modelled from the spec: \<^verbatim>\<open>faiss.normalize_L2\<close> scales each row to unit length
  (section 4.4, "normalize every resulting vector to unit L2 length"); a row of
  norm zero has no direction and is left as it is.
\<close>

definition l2_norm :: "vector \<Rightarrow> real" where
  "l2_norm v = sqrt (sum_list (map (\<lambda>x. x * x) v))"

definition normalize_L2 :: "vector list \<Rightarrow> vector list" where
  "normalize_L2 vs = map (\<lambda>v. if l2_norm v > 0 then map (\<lambda>x. x / l2_norm v) v else v) vs"

text \<open>
  Modelled from the spec: the FAISS index is not part of the sources. Sections 4.3
  and 7 give its contract: \<open>create\<close> returns an empty index of a dimension; \<open>insert\<close>
  appends vectors in order; a vector of another dimension is fatal for the operation
  (\<open>DimensionMismatch\<close>) and leaves the index as it was; \<open>query\<close> returns pairs of
  squared Euclidean distance and position, closest first. The clamping of \<open>k\<close> that
  section 4.3 mentions is done by the caller, \<^verbatim>\<open>search\<close>, before the query. The index
  itself is modelled as the library behaves: a query for \<open>k \<le> 0\<close> neighbours raises,
  and a query for more neighbours than there are vectors is not clamped but filled up
  to \<open>k\<close> pairs with the position \<open>-1\<close> at the largest single-precision distance.
\<close>

record faiss_index =
  d :: int
  xb :: "vector list"

definition IndexFlatL2 :: "int \<Rightarrow> faiss_index" where
  "IndexFlatL2 n = \<lparr>d = n, xb = []\<rparr>"

definition ntotal :: "faiss_index \<Rightarrow> nat" where
  "ntotal ix = length (xb ix)"

definition index_add :: "faiss_index \<Rightarrow> vector list \<Rightarrow> error + faiss_index" where
  "index_add ix vs =
     (if \<forall>v \<in> set vs. int (length v) = d ix then Inr (ix\<lparr>xb := xb ix @ vs\<rparr>)
      else Inl DimensionMismatch)"

definition l2_sqr :: "vector \<Rightarrow> vector \<Rightarrow> real" where
  "l2_sqr u v = sum_list (map (\<lambda>(x, y). (x - y) * (x - y)) (zip u v))"

definition nearest :: "faiss_index \<Rightarrow> vector \<Rightarrow> (real \<times> nat) list" where
  \<comment> \<open>all vectors of the index with their distance to the query, closest first\<close>
  "nearest ix q = sort_key fst (zip (map (l2_sqr q) (xb ix)) [0..<ntotal ix])"

definition pad_distance :: real where
  "pad_distance = 2 ^ 128 - 2 ^ 104"

definition index_search :: "faiss_index \<Rightarrow> vector \<Rightarrow> int \<Rightarrow> error + (real \<times> int) list" where
  "index_search ix q k =
     (if int (length q) \<noteq> d ix then Inl DimensionMismatch
      else if k \<le> 0 then Inl AssertionError
      else Inr (map (\<lambda>(distance, pos). (distance, int pos)) (take (nat k) (nearest ix q))
                @ replicate (nat k - ntotal ix) (pad_distance, - 1)))"

section \<open>VectorStore\<close>

text \<open>
  A metadata record is a Python dict with string keys; its values are the strings and
  integers the callers store. The store directory can be there, be creatable, lack
  its parent or be a file; each of the two files in it is absent, unreadable or holds
  a value. What the methods do to the outside is kept in order as the store's trace:
  the lines they print, and the batches they hand to the embedder.
\<close>

datatype json = JStr string | JInt int

type_synonym metadata_rec = "(string \<times> json) list"

datatype dir_state = IsDirectory | CanBeCreated | ParentMissing | NotADirectory

datatype 'a disk_file = Absent | Unreadable | Stored 'a

datatype message =
    LoadingEmbeddingModel string
  | LoadedExistingIndex nat
  | FailedToLoadExistingIndex
  | EmbeddingDocuments nat
  | AddedDocuments nat nat
  | VectorStoreCleared

datatype event = Printed message | Encoded "string list"

record environment =
  model_dir :: dir_state
  models :: "string \<Rightarrow> embedder option"
  index_file :: "faiss_index disk_file"
  metadata_file :: "metadata_rec list disk_file"

record vector_store =
  embedding_model_name :: string
  dimension :: int
  index_type :: string
  embedder :: embedder
  index :: "faiss_index option"
  metadata :: "metadata_rec list"
  trace :: "event list"

text \<open>
  \<^verbatim>\<open>_load_index\<close>: both files must exist; a failure to read either is caught, and
  the store is reset to the empty state.
\<close>

definition load_index :: "environment \<Rightarrow> vector_store \<Rightarrow> vector_store" where
  "load_index env s =
     (if index_file env \<noteq> Absent \<and> metadata_file env \<noteq> Absent then
        (case (index_file env, metadata_file env) of
           (Stored ix, Stored md) \<Rightarrow>
             s\<lparr>index := Some ix, metadata := md,
               trace := trace s @ [Printed (LoadedExistingIndex (ntotal ix))]\<rparr>
         | _ \<Rightarrow>
             s\<lparr>index := None, metadata := [],
               trace := trace s @ [Printed FailedToLoadExistingIndex]\<rparr>)
      else s)"

text \<open>
  \<^verbatim>\<open>__init__\<close>: \<^verbatim>\<open>self.model_dir.mkdir(exist_ok=True)\<close> raises when the parent of
  the directory is missing or the path is a file; then the embedding model is
  loaded, which may fail; then the persisted state is looked for. The index type is
  stored as given; nothing looks at it here.
\<close>

definition init ::
  "string \<Rightarrow> int \<Rightarrow> string \<Rightarrow> environment \<Rightarrow> error + vector_store" where
  "init embedding_model dimen itype env =
     (if model_dir env = ParentMissing then Inl FileNotFoundError
      else if model_dir env = NotADirectory then Inl FileExistsError
      else
        case models env embedding_model of
          None \<Rightarrow> Inl (ModelLoadFailure embedding_model)
        | Some emb \<Rightarrow>
            Inr (load_index env
                   \<lparr>embedding_model_name = embedding_model, dimension = dimen,
                    index_type = itype, embedder = emb, index = None, metadata = [],
                    trace = [Printed (LoadingEmbeddingModel embedding_model)]\<rparr>))"

definition create_index :: "vector_store \<Rightarrow> error + faiss_index" where
  "create_index s =
     (if index_type s = ''flat'' then Inr (IndexFlatL2 (dimension s))
      else if index_type s = ''ivf'' then Inr (IndexFlatL2 (dimension s))
      else if index_type s = ''hnsw'' then Inr (IndexFlatL2 (dimension s))
      else Inl (ValueError (''Unsupported index type: '' @ index_type s)))"

text \<open>
  \<^verbatim>\<open>if metadata:\<close> is the truth value of the argument: \<open>None\<close> and the empty list
  both take the \<^verbatim>\<open>else\<close> branch.
\<close>

definition truthy :: "'a list option \<Rightarrow> bool" where
  "truthy m = (case m of None \<Rightarrow> False | Some xs \<Rightarrow> xs \<noteq> [])"

definition default_metadata :: "string list \<Rightarrow> metadata_rec list" where
  "default_metadata texts = map (\<lambda>text. [(''text'', JStr (take 100 text))]) texts"

text \<open>
  \<^verbatim>\<open>add_documents\<close> returns the exception it raised, if any, and the store as the
  call leaves it: an exception does not undo what was done before it. The steps are
  in the order of the source: the print, the call of the embedder, the
  normalisation, the creation of the index if there is none, the insertion, the
  metadata, the last print.
\<close>

definition add_documents ::
  "string list \<Rightarrow> metadata_rec list option \<Rightarrow> vector_store \<Rightarrow> error option \<times> vector_store" where
  "add_documents texts md s =
     (if texts = [] then (None, s)
      else
        let s0 = s\<lparr>trace := trace s @ [Printed (EmbeddingDocuments (length texts))]\<rparr>;
            s1 = s0\<lparr>trace := trace s0 @ [Encoded texts]\<rparr>;
            embeddings = normalize_L2 (encode (embedder s1) texts)
        in case (case index s1 of None \<Rightarrow> create_index s1 | Some ix \<Rightarrow> Inr ix) of
             Inl e \<Rightarrow> (Some e, s1)
           | Inr ix \<Rightarrow>
               (let s2 = s1\<lparr>index := Some ix\<rparr>
                in case index_add ix embeddings of
                     Inl e \<Rightarrow> (Some e, s2)
                   | Inr ix' \<Rightarrow>
                       (let s3 = s2\<lparr>index := Some ix'\<rparr>;
                            s4 = s3\<lparr>metadata := metadata s3 @
                                   (if truthy md then the md else default_metadata texts)\<rparr>
                        in (None,
                            s4\<lparr>trace := trace s4 @
                                 [Printed (AddedDocuments (length texts) (ntotal ix'))]\<rparr>))))"

text \<open>
  The loop of \<^verbatim>\<open>search\<close> over the pairs the index returns: a position below the
  length of the metadata list is looked up with Python's indexing and kept with its
  similarity, any other position is skipped.
\<close>

fun collect_results ::
  "metadata_rec list \<Rightarrow> (real \<times> int) list \<Rightarrow> error + (real \<times> metadata_rec) list" where
  "collect_results md [] = Inr []"
| "collect_results md ((distance, idx) # hits) =
     (if idx < int (length md) then
        (case py_index md idx of
           Inl e \<Rightarrow> Inl e
         | Inr m \<Rightarrow>
             (case collect_results md hits of
                Inl e \<Rightarrow> Inl e
              | Inr results \<Rightarrow> Inr ((1 / (1 + distance), m) # results)))
      else collect_results md hits)"

text \<open>
  \<^verbatim>\<open>search\<close> returns its result or the exception it raised, and the store with the
  trace of the call: on an empty store it returns before the embedder is called.
\<close>

definition search ::
  "string \<Rightarrow> int \<Rightarrow> vector_store \<Rightarrow> (error + (real \<times> metadata_rec) list) \<times> vector_store" where
  "search query k s =
     (case index s of
        None \<Rightarrow> (Inr [], s)
      | Some ix \<Rightarrow>
          if ntotal ix = 0 then (Inr [], s)
          else
            let s1 = s\<lparr>trace := trace s @ [Encoded [query]]\<rparr>;
                query_embedding = normalize_L2 (encode (embedder s1) [query]);
                k' = min k (int (ntotal ix))
            in case index_search ix (hd query_embedding) k' of
                 Inl e \<Rightarrow> (Inl e, s1)
               | Inr hits \<Rightarrow> (collect_results (metadata s1) hits, s1))"

definition clear :: "vector_store \<Rightarrow> vector_store" where
  "clear s = s\<lparr>index := None, metadata := [],
               trace := trace s @ [Printed VectorStoreCleared]\<rparr>"

text \<open>
  The number of vectors a store holds; a store without an index holds none. A store
  is aligned when its metadata list has one record per vector.
\<close>

definition index_count :: "vector_store \<Rightarrow> nat" where
  "index_count s = (case index s of None \<Rightarrow> 0 | Some ix \<Rightarrow> ntotal ix)"

definition aligned :: "vector_store \<Rightarrow> bool" where
  "aligned s = (length (metadata s) = index_count s)"

text \<open>
  A sequence of \<^verbatim>\<open>add_documents\<close> calls on one store; a call that raises leaves the
  store as it is at the raise, and the next call goes on from there.
\<close>

fun add_all ::
  "(string list \<times> metadata_rec list option) list \<Rightarrow> vector_store \<Rightarrow> vector_store" where
  "add_all [] s = s"
| "add_all ((texts, md) # calls) s = add_all calls (snd (add_documents texts md s))"

text \<open>
  What \<^verbatim>\<open>_load_index\<close> finds in the store directory: a prior state is there when
  both files are present and readable.
\<close>

definition persisted_state :: "environment \<Rightarrow> (faiss_index \<times> metadata_rec list) option" where
  "persisted_state env =
     (case (index_file env, metadata_file env) of
        (Stored ix, Stored md) \<Rightarrow> Some (ix, md)
      | _ \<Rightarrow> None)"

text \<open>
  The metadata argument of a call fits its texts when it is absent, empty, or has
  one record per text.
\<close>

definition metadata_fits :: "string list \<Rightarrow> metadata_rec list option \<Rightarrow> bool" where
  "metadata_fits texts md =
     (case md of None \<Rightarrow> True | Some ms \<Rightarrow> ms = [] \<or> length ms = length texts)"

text \<open>The index types \<^verbatim>\<open>_create_index\<close> knows.\<close>

definition supported :: "string \<Rightarrow> bool" where
  "supported itype = (itype = ''flat'' \<or> itype = ''ivf'' \<or> itype = ''hnsw'')"

subsection \<open>A small store for concrete runs\<close>

text \<open>
  An environment with one loadable model, of dimension 2, and an empty store
  directory; \<open>demo_store itype\<close> is the store \<open>init\<close> builds there, \<open>demo_index\<close> the
  index after the three texts \<open>a\<close>, \<open>b\<close>, \<open>c\<close>, and \<open>other_index\<close> an index of
  dimension 3, as a file written with another model would hold.
\<close>

definition demo_embedder :: embedder where
  "demo_embedder text = (if text = ''a'' then [1, 0] else [0, 1])"

definition demo_env :: environment where
  "demo_env =
     \<lparr>model_dir = CanBeCreated,
      models = (\<lambda>name. if name = ''all-MiniLM-L6-v2'' then Some demo_embedder else None),
      index_file = Absent, metadata_file = Absent\<rparr>"

definition demo_store :: "string \<Rightarrow> vector_store" where
  "demo_store itype =
     \<lparr>embedding_model_name = ''all-MiniLM-L6-v2'', dimension = 2, index_type = itype,
      embedder = demo_embedder, index = None, metadata = [],
      trace = [Printed (LoadingEmbeddingModel ''all-MiniLM-L6-v2'')]\<rparr>"

definition demo_index :: faiss_index where
  "demo_index = \<lparr>d = 2, xb = [[1, 0], [0, 1], [0, 1]]\<rparr>"

definition other_index :: faiss_index where
  "other_index = \<lparr>d = 3, xb = [[1, 0, 0]]\<rparr>"

section \<open>Short texts\<close>

text \<open>
  C5. A text no longer than the chunk size comes back as the one-element list
  holding the text itself, character for character: nothing is trimmed on this path.
\<close>

theorem chunk_text_short:
  "int (length text) \<le> chunk_size \<Longrightarrow> chunk_text text chunk_size overlap = Some (Inr [text])"
  by (simp add: chunk_text_def)

theorem chunk_text_short_witness:
  "int (length ''  ab '') \<le> 5 \<and> chunk_text ''  ab '' 5 1 = Some (Inr [''  ab ''])"
  using chunk_text_short [of "''  ab ''" 5 1] by simp

section \<open>Facts about the store operations\<close>

lemma init_demo: "init ''all-MiniLM-L6-v2'' 2 itype demo_env = Inr (demo_store itype)"
  by (simp add: init_def demo_env_def demo_store_def load_index_def)

lemma length_normalize_L2 [simp]: "length (normalize_L2 vs) = length vs"
  by (simp add: normalize_L2_def)

lemma length_encode [simp]: "length (encode emb texts) = length texts"
  by (simp add: encode_def)

lemma dims_normalize_L2 [simp]: "map length (normalize_L2 vs) = map length vs"
  by (simp add: normalize_L2_def)

lemma index_add_Inr: "index_add ix vs = Inr ix' \<Longrightarrow> ntotal ix' = ntotal ix + length vs"
  by (auto simp: index_add_def ntotal_def split: if_splits)

lemma index_add_Inl: "index_add ix vs = Inl e \<Longrightarrow> e = DimensionMismatch"
  by (auto simp: index_add_def split: if_splits)

lemma create_index_Inr: "create_index s = Inr ix \<Longrightarrow> ntotal ix = 0"
  by (auto simp: create_index_def IndexFlatL2_def ntotal_def split: if_splits)

lemma create_index_Inl:
  "create_index s = Inl e \<Longrightarrow> e = ValueError (''Unsupported index type: '' @ index_type s)"
  by (auto simp: create_index_def split: if_splits)

lemma create_index_supported:
  "supported (index_type s) \<Longrightarrow> create_index s = Inr (IndexFlatL2 (dimension s))"
  by (auto simp: create_index_def supported_def)

lemma create_index_unsupported:
  "\<not> supported (index_type s) \<Longrightarrow>
   create_index s = Inl (ValueError (''Unsupported index type: '' @ index_type s))"
  by (auto simp: create_index_def supported_def)

lemma add_documents_effect:
  assumes "add_documents texts md s = (r, s')" "texts \<noteq> []"
  shows "(r = None \<and> index_count s' = index_count s + length texts \<and>
          metadata s' = metadata s @ (if truthy md then the md else default_metadata texts))
       \<or> ((r = Some DimensionMismatch \<or>
            r = Some (ValueError (''Unsupported index type: '' @ index_type s)))
           \<and> index_count s' = index_count s \<and> metadata s' = metadata s)"
  using assms
  by (auto simp: add_documents_def Let_def index_count_def
           split: option.splits sum.splits
           dest!: index_add_Inr index_add_Inl create_index_Inr create_index_Inl)

lemma add_documents_empty: "add_documents [] md s = (None, s)"
  by (simp add: add_documents_def)

text \<open>
  The three ways a call with texts can go, each with the store it leaves.
\<close>

lemma add_documents_unsupported:
  assumes "texts \<noteq> []" "index s = None" "\<not> supported (index_type s)"
  shows "add_documents texts md s =
           (Some (ValueError (''Unsupported index type: '' @ index_type s)),
            s\<lparr>trace := trace s @ [Printed (EmbeddingDocuments (length texts)), Encoded texts]\<rparr>)"
  using assms by (simp add: add_documents_def Let_def create_index_def supported_def)

lemma create_index_trace [simp]: "create_index (s\<lparr>trace := t\<rparr>) = create_index s"
  by (simp add: create_index_def)

lemma add_documents_unfold:
  assumes "texts \<noteq> []"
  shows "add_documents texts md s =
     (case (case index s of None \<Rightarrow> create_index s | Some ix \<Rightarrow> Inr ix) of
        Inl e \<Rightarrow>
          (Some e,
           s\<lparr>trace := trace s @ [Printed (EmbeddingDocuments (length texts)), Encoded texts]\<rparr>)
      | Inr ix \<Rightarrow>
          (case index_add ix (normalize_L2 (encode (embedder s) texts)) of
             Inl e \<Rightarrow>
               (Some e,
                s\<lparr>trace := trace s @ [Printed (EmbeddingDocuments (length texts)), Encoded texts],
                  index := Some ix\<rparr>)
           | Inr ix' \<Rightarrow>
               (None,
                s\<lparr>trace := trace s @ [Printed (EmbeddingDocuments (length texts)), Encoded texts,
                                       Printed (AddedDocuments (length texts) (ntotal ix'))],
                  index := Some ix',
                  metadata := metadata s @
                     (if truthy md then the md else default_metadata texts)\<rparr>)))"
  using assms
  by (simp add: add_documents_def Let_def split: option.splits sum.splits)

lemma add_documents_wrong_dimension:
  assumes "texts \<noteq> []" "index s \<noteq> None \<or> supported (index_type s)"
      and "ix = (case index s of Some i \<Rightarrow> i | None \<Rightarrow> IndexFlatL2 (dimension s))"
      and "\<exists>v \<in> set (normalize_L2 (encode (embedder s) texts)). int (length v) \<noteq> d ix"
  shows "add_documents texts md s =
           (Some DimensionMismatch,
            s\<lparr>trace := trace s @ [Printed (EmbeddingDocuments (length texts)), Encoded texts],
              index := Some ix\<rparr>)"
proof -
  have a: "index_add ix (normalize_L2 (encode (embedder s) texts)) = Inl DimensionMismatch"
    using assms(4) by (auto simp: index_add_def)
  have b: "(case index s of None \<Rightarrow> create_index s | Some ix \<Rightarrow> Inr ix) = Inr ix"
    using assms(2,3) by (auto simp: create_index_supported split: option.splits)
  show ?thesis unfolding add_documents_unfold [OF assms(1)] b by (simp add: a)
qed

lemma add_documents_returns:
  assumes "texts \<noteq> []" "index s \<noteq> None \<or> supported (index_type s)"
      and "ix = (case index s of Some i \<Rightarrow> i | None \<Rightarrow> IndexFlatL2 (dimension s))"
      and "\<forall>v \<in> set (normalize_L2 (encode (embedder s) texts)). int (length v) = d ix"
  shows "add_documents texts md s =
           (None,
            s\<lparr>trace := trace s @ [Printed (EmbeddingDocuments (length texts)), Encoded texts,
                                   Printed (AddedDocuments (length texts)
                                              (ntotal ix + length texts))],
              index := Some (ix\<lparr>xb := xb ix @ normalize_L2 (encode (embedder s) texts)\<rparr>),
              metadata := metadata s @ (if truthy md then the md else default_metadata texts)\<rparr>)"
proof -
  have a: "index_add ix (normalize_L2 (encode (embedder s) texts))
        = Inr (ix\<lparr>xb := xb ix @ normalize_L2 (encode (embedder s) texts)\<rparr>)"
    using assms(4) by (auto simp: index_add_def)
  have b: "(case index s of None \<Rightarrow> create_index s | Some ix \<Rightarrow> Inr ix) = Inr ix"
    using assms(2,3) by (auto simp: create_index_supported split: option.splits)
  show ?thesis unfolding add_documents_unfold [OF assms(1)] b by (simp add: a ntotal_def)
qed

lemma add_documents_aligned:
  assumes "aligned s" "metadata_fits texts md"
  shows "aligned (snd (add_documents texts md s))"
proof (cases "texts = []")
  case True thus ?thesis using assms by (simp add: add_documents_empty)
next
  case False
  obtain r s' where rs: "add_documents texts md s = (r, s')"
    by (cases "add_documents texts md s")
  from add_documents_effect [OF rs False] assms show ?thesis
    unfolding rs
    by (auto simp: aligned_def metadata_fits_def truthy_def default_metadata_def
             split: option.splits)
qed

lemma add_all_aligned_aux:
  "aligned s \<Longrightarrow> \<forall>(texts, md) \<in> set calls. metadata_fits texts md \<Longrightarrow>
   aligned (add_all calls s)"
  by (induction calls arbitrary: s) (auto simp: add_documents_aligned)

lemma demo_add_abc:
  "add_documents [''a'', ''b'', ''c''] None (demo_store ''flat'') =
     (None,
      (demo_store ''flat'')
        \<lparr>index := Some demo_index,
         metadata := [[(''text'', JStr ''a'')], [(''text'', JStr ''b'')], [(''text'', JStr ''c'')]],
         trace := [Printed (LoadingEmbeddingModel ''all-MiniLM-L6-v2''),
                   Printed (EmbeddingDocuments 3), Encoded [''a'', ''b'', ''c''],
                   Printed (AddedDocuments 3 3)]\<rparr>)"
  by (simp add: demo_store_def demo_index_def demo_embedder_def add_documents_def Let_def
      create_index_def IndexFlatL2_def index_add_def encode_def normalize_L2_def l2_norm_def
      truthy_def ntotal_def default_metadata_def)

section \<open>Metadata alignment\<close>

text \<open>
  C1, as the claim states it, fails: a call with one text and two caller-supplied
  metadata records goes through, and leaves two records for one vector.
\<close>

theorem add_documents_misaligned_counterexample:
  "[''a''] \<noteq> [] \<and> aligned (demo_store ''flat'') \<and>
   \<not> aligned (snd (add_documents [''a''] (Some [[(''k'', JInt 1)], [(''k'', JInt 2)]])
                    (demo_store ''flat'')))"
  by (simp add: aligned_def index_count_def demo_store_def demo_embedder_def add_documents_def
      Let_def create_index_def IndexFlatL2_def index_add_def encode_def normalize_L2_def
      truthy_def ntotal_def)

text \<open>
  C1, amended. On a store whose metadata list is as long as its index holds vectors
  (none while the index is absent), after each call of any sequence of
  \<^verbatim>\<open>add_documents\<close> calls whose metadata argument is absent, empty or of the same
  length as the texts, the metadata list is again as long as the index holds vectors.
\<close>

theorem add_all_aligned:
  assumes "aligned s" "\<forall>(texts, md) \<in> set calls. metadata_fits texts md"
  shows "\<forall>n \<le> length calls. aligned (add_all (take n calls) s)"
proof (intro allI impI)
  fix n assume "n \<le> length calls"
  have "\<forall>(texts, md) \<in> set (take n calls). metadata_fits texts md"
    using assms(2) by (auto dest: in_set_takeD)
  thus "aligned (add_all (take n calls) s)"
    using assms(1) by (rule add_all_aligned_aux[rotated])
qed

theorem add_all_aligned_witness:
  "aligned (demo_store ''flat'') \<and>
   metadata_fits [''a''] None \<and>
   metadata_fits [''b'', ''c''] (Some [[(''k'', JInt 1)], [(''k'', JInt 2)]]) \<and>
   aligned (add_all [([''a''], None)] (demo_store ''flat'')) \<and>
   aligned (add_all [([''a''], None), ([''b'', ''c''], Some [[(''k'', JInt 1)], [(''k'', JInt 2)]])]
              (demo_store ''flat''))"
proof -
  let ?calls = "[([''a''], None), ([''b'', ''c''], Some [[(''k'', JInt 1)], [(''k'', JInt 2)]])]"
  have a: "aligned (demo_store ''flat'')"
    by (simp add: aligned_def index_count_def demo_store_def)
  have f: "\<forall>(texts, md) \<in> set ?calls. metadata_fits texts md"
    by (simp add: metadata_fits_def)
  have all: "\<forall>n \<le> length ?calls. aligned (add_all (take n ?calls) (demo_store ''flat''))"
    by (rule add_all_aligned [OF a f])
  have "aligned (add_all (take 1 ?calls) (demo_store ''flat''))"
    using all by (elim allE [of _ 1]) simp
  moreover have "aligned (add_all (take 2 ?calls) (demo_store ''flat''))"
    using all by (elim allE [of _ 2]) simp
  ultimately show ?thesis using a by (simp add: metadata_fits_def)
qed

section \<open>Metadata of the wrong length\<close>

text \<open>
  C2, as the claim states it, fails: two texts with one metadata record are not
  rejected. The call returns normally, the index holds two vectors and the metadata
  list one record.
\<close>

theorem add_documents_length_mismatch_counterexample:
  "length [[(''k'', JInt 1)]] \<noteq> length [''a'', ''b''] \<and>
   fst (add_documents [''a'', ''b''] (Some [[(''k'', JInt 1)]]) (demo_store ''flat'')) = None \<and>
   metadata (snd (add_documents [''a'', ''b''] (Some [[(''k'', JInt 1)]]) (demo_store ''flat'')))
     = [[(''k'', JInt 1)]] \<and>
   index_count (snd (add_documents [''a'', ''b''] (Some [[(''k'', JInt 1)]]) (demo_store ''flat'')))
     = 2"
  by (simp add: index_count_def demo_store_def demo_embedder_def add_documents_def Let_def
      create_index_def IndexFlatL2_def index_add_def encode_def normalize_L2_def truthy_def
      ntotal_def)

text \<open>
  C2, amended. For non-empty texts and caller-supplied metadata of a different
  length, \<^verbatim>\<open>add_documents\<close> never fails with ArgumentMismatch; it raises or returns
  as the same call without metadata does, and leaves the same index. With no index and an unsupported index type it raises the ValueError of
  \<^verbatim>\<open>_create_index\<close> and leaves index and metadata as they were. Otherwise, if an
  embedding has not the dimension of the index (the present one, or the new one of
  the store's dimension), it raises DimensionMismatch with the metadata as they
  were. Otherwise it returns normally: one vector per text is inserted, and the
  supplied list is appended whole (the default previews if the supplied list is
  empty).
\<close>

theorem add_documents_ignores_metadata_length:
  assumes "texts \<noteq> []" and "length md \<noteq> length texts"
      and "embeddings = normalize_L2 (encode (embedder s) texts)"
      and "ix = (case index s of Some i \<Rightarrow> i | None \<Rightarrow> IndexFlatL2 (dimension s))"
      and "r = fst (add_documents texts (Some md) s)"
      and "s' = snd (add_documents texts (Some md) s)"
  shows "r \<noteq> Some ArgumentMismatch \<and>
         r = fst (add_documents texts None s) \<and>
         index s' = index (snd (add_documents texts None s)) \<and>
         (index s = None \<and> \<not> supported (index_type s) \<longrightarrow>
            r = Some (ValueError (''Unsupported index type: '' @ index_type s)) \<and>
            index s' = None \<and> metadata s' = metadata s) \<and>
         ((index s \<noteq> None \<or> supported (index_type s)) \<and>
          (\<exists>v \<in> set embeddings. int (length v) \<noteq> d ix) \<longrightarrow>
            r = Some DimensionMismatch \<and> index s' = Some ix \<and> metadata s' = metadata s) \<and>
         ((index s \<noteq> None \<or> supported (index_type s)) \<and>
          (\<forall>v \<in> set embeddings. int (length v) = d ix) \<longrightarrow>
            r = None \<and> index s' = Some (ix\<lparr>xb := xb ix @ embeddings\<rparr>) \<and>
            metadata s' = metadata s @ (if md = [] then default_metadata texts else md))"
proof -
  consider
      (unsupported) "index s = None" "\<not> supported (index_type s)"
    | (dimension) "index s \<noteq> None \<or> supported (index_type s)"
        "\<exists>v \<in> set embeddings. int (length v) \<noteq> d ix"
    | (returns) "index s \<noteq> None \<or> supported (index_type s)"
        "\<forall>v \<in> set embeddings. int (length v) = d ix"
    by blast
  then show ?thesis
  proof cases
    case unsupported
    from add_documents_unsupported [OF assms(1) unsupported]
    show ?thesis using unsupported unfolding assms(5,6) by simp
  next
    case dimension
    from dimension(2) have ex:
      "\<exists>v \<in> set (normalize_L2 (encode (embedder s) texts)). int (length v) \<noteq> d ix"
      unfolding assms(3) .
    from add_documents_wrong_dimension [OF assms(1) dimension(1) assms(4) ex]
    show ?thesis using dimension unfolding assms(5,6) by auto
  next
    case returns
    from returns(2) have al:
      "\<forall>v \<in> set (normalize_L2 (encode (embedder s) texts)). int (length v) = d ix"
      unfolding assms(3) .
    from add_documents_returns [OF assms(1) returns(1) assms(4) al]
    show ?thesis using returns unfolding assms(3,5,6) by (auto simp: truthy_def)
  qed
qed

theorem add_documents_ignores_metadata_length_witness:
  "[''x''] \<noteq> [] \<and>
   length [[(''k'', JInt 1)], [(''k'', JInt 2)], [(''k'', JInt 3)]] \<noteq> length [''x''] \<and>
   supported (index_type (demo_store ''hnsw'')) \<and>
   fst (add_documents [''x''] (Some [[(''k'', JInt 1)], [(''k'', JInt 2)], [(''k'', JInt 3)]])
          (demo_store ''hnsw'')) = None \<and>
   index (snd (add_documents [''x'']
          (Some [[(''k'', JInt 1)], [(''k'', JInt 2)], [(''k'', JInt 3)]]) (demo_store ''hnsw'')))
     = Some \<lparr>d = 2, xb = [[0, 1]]\<rparr> \<and>
   metadata (snd (add_documents [''x'']
          (Some [[(''k'', JInt 1)], [(''k'', JInt 2)], [(''k'', JInt 3)]]) (demo_store ''hnsw'')))
     = [[(''k'', JInt 1)], [(''k'', JInt 2)], [(''k'', JInt 3)]]"
proof -
  let ?md = "[[(''k'', JInt 1)], [(''k'', JInt 2)], [(''k'', JInt 3)]]"
  let ?s = "demo_store ''hnsw''"
  have e: "[[0, 1]] = normalize_L2 (encode (embedder ?s) [''x''])"
    by (simp add: demo_store_def demo_embedder_def encode_def normalize_L2_def l2_norm_def)
  have i: "\<lparr>d = 2, xb = []\<rparr> = (case index ?s of Some i \<Rightarrow> i | None \<Rightarrow> IndexFlatL2 (dimension ?s))"
    by (simp add: demo_store_def IndexFlatL2_def)
  have su: "supported (index_type ?s)" by (simp add: supported_def demo_store_def)
  have ne: "[''x''] \<noteq> []" and le: "length ?md \<noteq> length [''x'']" by simp_all
  have al: "\<forall>v \<in> set [[0, 1 :: real]]. int (length v) = d \<lparr>d = 2, xb = []\<rparr>" by simp
  have "(index ?s \<noteq> None \<or> supported (index_type ?s)) \<and>
        (\<forall>v \<in> set [[0, 1 :: real]]. int (length v) = d \<lparr>d = 2, xb = []\<rparr>) \<longrightarrow>
          fst (add_documents [''x''] (Some ?md) ?s) = None \<and>
          index (snd (add_documents [''x''] (Some ?md) ?s))
            = Some (\<lparr>d = 2, xb = []\<rparr>\<lparr>xb := xb \<lparr>d = 2, xb = []\<rparr> @ [[0, 1]]\<rparr>) \<and>
          metadata (snd (add_documents [''x''] (Some ?md) ?s))
            = metadata ?s @ (if ?md = [] then default_metadata [''x''] else ?md)"
    using add_documents_ignores_metadata_length [OF ne le e i refl refl] by blast
  with su al have
    "fst (add_documents [''x''] (Some ?md) ?s) = None"
    "index (snd (add_documents [''x''] (Some ?md) ?s))
       = Some (\<lparr>d = 2, xb = []\<rparr>\<lparr>xb := xb \<lparr>d = 2, xb = []\<rparr> @ [[0, 1]]\<rparr>)"
    "metadata (snd (add_documents [''x''] (Some ?md) ?s))
       = metadata ?s @ (if ?md = [] then default_metadata [''x''] else ?md)"
    by blast+
  moreover have "metadata ?s = []" by (simp add: demo_store_def)
  ultimately show ?thesis using su by simp
qed

section \<open>Searching\<close>

text \<open>
  C8. On a store whose index is absent or holds no vector, \<^verbatim>\<open>search\<close> returns the
  empty list for every query and every \<open>k\<close>: it raises nothing, and it returns
  before the embedder is called, so the store and its trace are as they were.
\<close>

theorem search_empty_store:
  "index s = None \<or> (\<exists>ix. index s = Some ix \<and> ntotal ix = 0) \<Longrightarrow>
   search query k s = (Inr [], s)"
  by (auto simp: search_def)

theorem search_empty_store_witness:
  "index (demo_store ''flat'') = None \<and>
   search ''machine learning'' 5 (demo_store ''flat'') = (Inr [], demo_store ''flat'')"
  using search_empty_store [of "demo_store ''flat''" "''machine learning''" 5]
  by (simp add: demo_store_def)

lemma nearest_positions: "(distance, pos) \<in> set (nearest ix q) \<Longrightarrow> pos < ntotal ix"
proof -
  assume "(distance, pos) \<in> set (nearest ix q)"
  hence "(distance, pos) \<in> set (zip (map (l2_sqr q) (xb ix)) [0..<ntotal ix])"
    by (simp add: nearest_def)
  thus ?thesis by (auto dest: set_zip_rightD)
qed

lemma length_nearest: "length (nearest ix q) = ntotal ix"
  by (simp add: nearest_def ntotal_def)

lemma collect_results_valid:
  "\<forall>h \<in> set hits. snd h < length md \<Longrightarrow>
   collect_results md (map (\<lambda>(distance, pos). (distance, int pos)) hits)
     = Inr (map (\<lambda>(distance, pos). (1 / (1 + distance), md ! pos)) hits)"
  by (induction hits) (auto simp: py_index_def)

lemma index_search_clamped:
  assumes "int (length q) = d ix" "1 \<le> k" "k \<le> int (ntotal ix)"
  shows "index_search ix q k
         = Inr (map (\<lambda>(distance, pos). (distance, int pos)) (take (nat k) (nearest ix q)))"
proof -
  have "nat k - ntotal ix = 0" using assms(3) by simp
  thus ?thesis using assms(1,2) by (simp add: index_search_def)
qed

lemma search_nonempty:
  assumes "index s = Some ix" "0 < ntotal ix" "length (metadata s) = ntotal ix"
      and "1 \<le> k" "int (length (embedder s query)) = d ix"
  shows "fst (search query k s) =
         Inr (map (\<lambda>(distance, pos). (1 / (1 + distance), metadata s ! pos))
                (take (nat (min k (int (ntotal ix))))
                   (nearest ix (hd (normalize_L2 (encode (embedder s) [query]))))))"
proof -
  let ?q = "hd (normalize_L2 (encode (embedder s) [query]))"
  let ?k = "min k (int (ntotal ix))"
  have "length ?q = length (embedder s query)"
    by (simp add: normalize_L2_def encode_def)
  hence q: "int (length ?q) = d ix" using assms(5) by simp
  have k: "1 \<le> ?k" "?k \<le> int (ntotal ix)" using assms(2,4) by simp_all
  have hits: "index_search ix ?q ?k
      = Inr (map (\<lambda>(distance, pos). (distance, int pos)) (take (nat ?k) (nearest ix ?q)))"
    using q k by (rule index_search_clamped)
  have "\<forall>h \<in> set (take (nat ?k) (nearest ix ?q)). snd h < length (metadata s)"
    using nearest_positions assms(3) by (fastforce dest: in_set_takeD)
  hence "collect_results (metadata s)
           (map (\<lambda>(distance, pos). (distance, int pos)) (take (nat ?k) (nearest ix ?q)))
         = Inr (map (\<lambda>(distance, pos). (1 / (1 + distance), metadata s ! pos))
                  (take (nat ?k) (nearest ix ?q)))"
    by (rule collect_results_valid)
  thus ?thesis using assms(1,2) hits by (simp add: search_def Let_def)
qed

text \<open>
  C9, as the claim states it, fails for some \<open>k\<close> and some stores. On the store
  with the three texts, \<open>k = 0\<close> does not give the empty list: the clamped \<open>k\<close> is 0
  and the query of the index raises. And a store whose index has another dimension
  than the embedder, as after loading an index file written with another model,
  raises for every \<open>k\<close> although its metadata list is aligned.
\<close>

theorem search_raises_counterexample:
  "index_count (snd (add_documents [''a'', ''b'', ''c''] None (demo_store ''flat''))) = 3 \<and>
   aligned (snd (add_documents [''a'', ''b'', ''c''] None (demo_store ''flat''))) \<and>
   fst (search ''a'' 0 (snd (add_documents [''a'', ''b'', ''c''] None (demo_store ''flat''))))
     = Inl AssertionError \<and>
   aligned ((demo_store ''flat'')\<lparr>index := Some other_index,
                                  metadata := [[(''text'', JStr ''a'')]]\<rparr>) \<and>
   fst (search ''a'' 1 ((demo_store ''flat'')\<lparr>index := Some other_index,
                                  metadata := [[(''text'', JStr ''a'')]]\<rparr>))
     = Inl DimensionMismatch"
proof -
  let ?s = "snd (add_documents [''a'', ''b'', ''c''] None (demo_store ''flat''))"
  let ?o = "(demo_store ''flat'')\<lparr>index := Some other_index,
                                     metadata := [[(''text'', JStr ''a'')]]\<rparr>"
  have i: "index ?s = Some demo_index" by (simp add: demo_add_abc)
  have m: "length (metadata ?s) = 3" by (simp add: demo_add_abc)
  have n: "ntotal demo_index = 3" by (simp add: ntotal_def demo_index_def)
  have e: "embedder ?s = demo_embedder" unfolding demo_add_abc by (simp add: demo_store_def)
  have q: "length (hd (normalize_L2 (encode demo_embedder [''a'']))) = 2"
    by (simp add: normalize_L2_def encode_def demo_embedder_def)
  have "index_search demo_index (hd (normalize_L2 (encode demo_embedder [''a''])))
          (min 0 (int (ntotal demo_index))) = Inl AssertionError"
    using q by (simp add: index_search_def demo_index_def)
  hence a: "fst (search ''a'' 0 ?s) = Inl AssertionError"
    using i n e by (simp add: search_def Let_def)
  have "index_search other_index (hd (normalize_L2 (encode demo_embedder [''a''])))
          (min 1 (int (ntotal other_index))) = Inl DimensionMismatch"
    using q by (simp add: index_search_def other_index_def)
  hence b: "fst (search ''a'' 1 ?o) = Inl DimensionMismatch"
    by (simp add: search_def Let_def demo_store_def ntotal_def other_index_def)
  have c: "aligned ?o"
    by (simp add: aligned_def index_count_def ntotal_def other_index_def)
  from i m n a b c show ?thesis by (simp add: aligned_def index_count_def)
qed

text \<open>
  C9, amended. For every query and every \<open>k \<ge> 1\<close>, on a store with \<open>n > 0\<close>
  vectors, \<open>n\<close> metadata records and an index of the dimension of the query's
  embedding, \<^verbatim>\<open>search\<close> returns exactly \<open>min k n\<close> results: \<open>k\<close> is clamped to the
  count, and the results are the metadata records at the positions of the \<open>min k n\<close>
  nearest vectors, closest first, none dropped.
\<close>

theorem search_clamps_k:
  assumes "index s = Some ix" "ntotal ix = n" "0 < n" "length (metadata s) = n"
      and "1 \<le> k" "int (length (embedder s query)) = d ix"
  shows "fst (search query k s) =
           Inr (map (\<lambda>(distance, pos). (1 / (1 + distance), metadata s ! pos))
                  (take (nat (min k (int n)))
                     (nearest ix (hd (normalize_L2 (encode (embedder s) [query])))))) \<and>
         (\<exists>results. fst (search query k s) = Inr results \<and>
                    int (length results) = min k (int n))"
proof -
  have eq: "fst (search query k s) =
           Inr (map (\<lambda>(distance, pos). (1 / (1 + distance), metadata s ! pos))
                  (take (nat (min k (int n)))
                     (nearest ix (hd (normalize_L2 (encode (embedder s) [query]))))))"
    using search_nonempty [of s ix k query] assms by simp
  have "int (length (take (nat (min k (int n)))
                      (nearest ix (hd (normalize_L2 (encode (embedder s) [query]))))))
        = min k (int n)"
    using assms(2,5) by (simp add: length_nearest)
  thus ?thesis using eq by simp
qed

theorem search_clamps_k_witness:
  "index (snd (add_documents [''a'', ''b'', ''c''] None (demo_store ''flat''))) = Some demo_index \<and>
   ntotal demo_index = 3 \<and>
   length (metadata (snd (add_documents [''a'', ''b'', ''c''] None (demo_store ''flat'')))) = 3 \<and>
   (1::int) \<le> 100 \<and>
   int (length (embedder (snd (add_documents [''a'', ''b'', ''c''] None (demo_store ''flat'')))
                  ''a'')) = d demo_index \<and>
   (\<exists>results.
      fst (search ''a'' 100 (snd (add_documents [''a'', ''b'', ''c''] None (demo_store ''flat''))))
        = Inr results \<and> int (length results) = 3)"
proof -
  let ?s = "snd (add_documents [''a'', ''b'', ''c''] None (demo_store ''flat''))"
  have i: "index ?s = Some demo_index" by (simp add: demo_add_abc)
  have n: "ntotal demo_index = 3" by (simp add: ntotal_def demo_index_def)
  have m: "length (metadata ?s) = 3" by (simp add: demo_add_abc)
  have k: "(1::int) \<le> 100" by simp
  have q: "int (length (embedder ?s ''a'')) = d demo_index"
    unfolding demo_add_abc by (simp add: demo_store_def demo_embedder_def demo_index_def)
  have "0 < (3::nat)" by simp
  from search_clamps_k [OF i n this m k q]
  have "\<exists>results. fst (search ''a'' 100 ?s) = Inr results \<and>
                   int (length results) = min 100 (int 3)"
    by blast
  hence "\<exists>results. fst (search ''a'' 100 ?s) = Inr results \<and> int (length results) = 3"
    by simp
  with i n m k q show ?thesis by blast
qed

section \<open>Unsupported index types\<close>

text \<open>
  C10. With an index type other than flat, ivf and hnsw, a store directory that is
  there or can be made, an embedding model that loads and no prior state on disk,
  \<open>init\<close> succeeds and gives a store without index and without metadata. On
  that store a call of \<^verbatim>\<open>add_documents\<close> with no text and a search raise nothing
  and change nothing; a call with texts prints its line, calls the embedder on the
  texts, then raises the ValueError of \<^verbatim>\<open>_create_index\<close>, and leaves the index
  absent and the metadata list empty.
\<close>

theorem unsupported_index_type_deferred:
  assumes "\<not> supported itype"
      and "model_dir env = IsDirectory \<or> model_dir env = CanBeCreated"
      and "models env embedding_model = Some emb"
      and "persisted_state env = None"
      and "texts \<noteq> []"
  shows "\<exists>s. init embedding_model dimen itype env = Inr s \<and>
             index s = None \<and> metadata s = [] \<and>
             add_documents [] md s = (None, s) \<and>
             search query k s = (Inr [], s) \<and>
             fst (add_documents texts md s)
               = Some (ValueError (''Unsupported index type: '' @ itype)) \<and>
             index (snd (add_documents texts md s)) = None \<and>
             metadata (snd (add_documents texts md s)) = [] \<and>
             trace (snd (add_documents texts md s))
               = trace s @ [Printed (EmbeddingDocuments (length texts)), Encoded texts]"
proof -
  obtain s where s: "init embedding_model dimen itype env = Inr s"
    using assms(2,3) by (auto simp: init_def)
  have flds: "index s = None" "metadata s = []" "index_type s = itype"
    using s assms(2,3,4)
    by (auto simp: init_def load_index_def persisted_state_def split: disk_file.splits)
  have "add_documents texts md s =
         (Some (ValueError (''Unsupported index type: '' @ index_type s)),
          s\<lparr>trace := trace s @ [Printed (EmbeddingDocuments (length texts)), Encoded texts]\<rparr>)"
    using assms(5) flds(1) assms(1) unfolding flds(3) [symmetric]
    by (rule add_documents_unsupported)
  thus ?thesis using s flds by (simp add: add_documents_empty search_def)
qed

theorem unsupported_index_type_deferred_witness:
  "\<not> supported ''lsh'' \<and>
   (model_dir demo_env = IsDirectory \<or> model_dir demo_env = CanBeCreated) \<and>
   models demo_env ''all-MiniLM-L6-v2'' = Some demo_embedder \<and>
   persisted_state demo_env = None \<and>
   init ''all-MiniLM-L6-v2'' 2 ''lsh'' demo_env = Inr (demo_store ''lsh'') \<and>
   fst (add_documents [''a''] None (demo_store ''lsh''))
     = Some (ValueError ''Unsupported index type: lsh'') \<and>
   index (snd (add_documents [''a''] None (demo_store ''lsh''))) = None \<and>
   metadata (snd (add_documents [''a''] None (demo_store ''lsh''))) = [] \<and>
   trace (snd (add_documents [''a''] None (demo_store ''lsh'')))
     = [Printed (LoadingEmbeddingModel ''all-MiniLM-L6-v2''), Printed (EmbeddingDocuments 1),
        Encoded [''a'']]"
proof -
  have t: "\<not> supported ''lsh''" by (simp add: supported_def)
  have dr: "model_dir demo_env = IsDirectory \<or> model_dir demo_env = CanBeCreated"
    by (simp add: demo_env_def)
  have m: "models demo_env ''all-MiniLM-L6-v2'' = Some demo_embedder"
    by (simp add: demo_env_def)
  have p: "persisted_state demo_env = None"
    by (simp add: persisted_state_def demo_env_def)
  have ne: "[''a''] \<noteq> []" by simp
  from unsupported_index_type_deferred [OF t dr m p ne, of 2 None "''q''" 5]
  obtain s where s: "init ''all-MiniLM-L6-v2'' 2 ''lsh'' demo_env = Inr s"
    and r: "fst (add_documents [''a''] None s)
              = Some (ValueError (''Unsupported index type: '' @ ''lsh''))"
           "index (snd (add_documents [''a''] None s)) = None"
           "metadata (snd (add_documents [''a''] None s)) = []"
           "trace (snd (add_documents [''a''] None s))
              = trace s @ [Printed (EmbeddingDocuments (length [''a''])), Encoded [''a'']]"
    by blast
  from s have "s = demo_store ''lsh''" by (simp add: init_demo)
  with s r t dr m p show ?thesis by (simp add: demo_store_def)
qed

section \<open>Exceptions of the chunker\<close>

text \<open>
  The only exception \<^verbatim>\<open>chunk_text\<close> can raise is the \<open>OverflowError\<close> of the float
  product.
\<close>

lemma gt_0_7_Inl: "gt_0_7 p S = Inl e \<Longrightarrow> e = OverflowError"
  by (auto simp: gt_0_7_def mul_0_7_def Let_def split: sum.splits if_splits)

lemma find_break_Inl: "find_break chunk S ps = Inl e \<Longrightarrow> e = OverflowError"
  by (induction ps) (auto simp: Let_def split: sum.splits bool.splits dest: gt_0_7_Inl)

lemma window_Inl: "window text S start = Inl e \<Longrightarrow> e = OverflowError"
  by (auto simp: window_def Let_def split: sum.splits option.splits if_splits dest: find_break_Inl)

lemma chunk_loop_Inl_aux:
  "chunk_loop text S O' start chunks = Some r \<Longrightarrow> (\<forall>e. r = Inl e \<longrightarrow> e = OverflowError)"
proof (induction rule: chunk_loop.raw_induct[rotated 1, consumes 1])
  case (1 loop t S O' start chunks r)
  then show ?case
    by (auto split: if_splits sum.splits prod.splits dest: window_Inl)
qed

lemma chunk_text_Inl: "chunk_text text S O' = Some (Inl e) \<Longrightarrow> e = OverflowError"
  by (auto simp: chunk_text_def split: if_splits dest: chunk_loop_Inl_aux)

section \<open>A window that does not advance\<close>

text \<open>
  With chunk size 10 and overlap 9 the first window of \<open>aaaaaaaa. b\<close> is cut after
  the full stop, at 9 characters, so the next window starts at 0 again and the loop
  repeats the same pass for ever.
\<close>

lemma chunk_loop_stuck: "chunk_loop ''aaaaaaaa. b'' 10 9 0 chunks = None"
proof -
  let ?P = "\<lambda>f :: string \<Rightarrow> int \<Rightarrow> int \<Rightarrow> int \<Rightarrow> string list \<Rightarrow> (error + string list) option. \<forall>chunks. f ''aaaaaaaa. b'' (10::int) (9::int) (0::int) chunks = (None :: (error + string list) option)"
  have "?P chunk_loop"
  proof (rule chunk_loop.fixp_induct)
    show "option.admissible (\<lambda>f. ?P (curry (curry (curry (curry f)))))"
      by (rule ccpo.admissibleI) (auto simp: fun_lub_def flat_lub_def)
  next
    show "?P (\<lambda>_ _ _ _ _. None)" by simp
  next
    fix f assume "?P f"
    have w: "window ''aaaaaaaa. b'' 10 0 = Inr (''aaaaaaaa.'', 9)" by code_simp
    show "?P (\<lambda>a aa b c d.
           if c < int (length a)
           then case window a aa c of Inl e \<Rightarrow> Some (Inl e)
                | Inr (chunk, end1) \<Rightarrow> f a aa b (end1 - b) (d @ [strip chunk])
           else Some (Inr d))"
      using \<open>?P f\<close> by (simp add: w)
  qed
  thus ?thesis by blast
qed

text \<open>
  C3 fails on the code: chunk size 10 and overlap 9 satisfy \<open>0 \<le> overlap < chunk_size\<close>,
  and \<^verbatim>\<open>chunk_text\<close> does not return on the text \<open>aaaaaaaa. b\<close>.
\<close>

theorem chunk_text_diverges:
  "(0::int) < 10 \<and> (0::int) \<le> 9 \<and> (9::int) < 10 \<and> chunk_text ''aaaaaaaa. b'' 10 9 = None"
  by (simp add: chunk_text_def chunk_loop_stuck)

section \<open>Facts about \<open>rfind\<close> and the float threshold\<close>

lemma filter_rev_upt_Cons:
  "filter P (rev [0..<n]) = i # rest \<Longrightarrow> P i \<and> i < n \<and> (\<forall>j. i < j \<and> j < n \<longrightarrow> \<not> P j)"
proof (induction n)
  case 0
  then show ?case by simp
next
  case (Suc n)
  show ?case
  proof (cases "P n")
    case True
    with Suc.prems have "i = n" by simp
    with True show ?thesis by auto
  next
    case False
    with Suc.prems have "filter P (rev [0..<n]) = i # rest" by simp
    from Suc.IH [OF this] False show ?thesis
      by (auto simp: less_Suc_eq)
  qed
qed

lemma filter_rev_upt_Nil:
  "filter P (rev [0..<n]) = [] \<Longrightarrow> j < n \<Longrightarrow> \<not> P j"
  by (auto simp: filter_empty_conv)

lemma rfind_ge: "- 1 \<le> rfind s sub"
  by (simp add: rfind_def split: list.splits)

lemma rfind_occurs: "0 \<le> rfind s sub \<Longrightarrow> occurs_at s sub (nat (rfind s sub))"
  by (auto simp: rfind_def split: list.splits dest: filter_rev_upt_Cons)

lemma occurs_at_bound: "occurs_at s sub i \<Longrightarrow> i < Suc (length s)"
  by (simp add: occurs_at_def)

lemma rfind_last: "occurs_at s sub i \<Longrightarrow> int i \<le> rfind s sub"
proof -
  assume occ: "occurs_at s sub i"
  hence lt: "i < Suc (length s)" by (rule occurs_at_bound)
  show ?thesis
  proof (cases "filter (occurs_at s sub) (rev [0..<Suc (length s)])")
    case Nil
    from filter_rev_upt_Nil [OF Nil lt] occ show ?thesis by simp
  next
    case (Cons k rest)
    from filter_rev_upt_Cons [OF Cons] occ lt have "i \<le> k"
      by (meson not_le_imp_less)
    with Cons show ?thesis by (simp add: rfind_def)
  qed
qed

lemma find_break_find:
  "mul_0_7 S = Inr t \<Longrightarrow>
   find_break chunk S ps =
     Inr (map_option (rfind chunk) (find (\<lambda>punct. gt_0_7 (rfind chunk punct) S = Inr True) ps))"
  by (induction ps) (auto simp: gt_0_7_def Let_def)

lemma py_slice_prefix:
  "0 \<le> p \<Longrightarrow> py_slice s 0 (p + 1) = take (nat p + 1) s"
  by (auto simp: py_slice_def py_bound_def Let_def min_def nat_add_distrib)

lemma take_Suc_occurs:
  assumes "occurs_at s sub i" "sub \<noteq> []"
  shows "take (Suc i) s = take i s @ [hd sub]"
proof -
  from assms have lt: "i < length s" by (cases sub) (auto simp: occurs_at_def)
  from assms have "hd (drop i s) = hd sub"
    by (cases sub) (auto simp: occurs_at_def dest: arg_cong [where f = hd])
  hence "s ! i = hd sub" using lt by (simp add: hd_drop_conv_nth)
  thus ?thesis using lt by (simp add: take_Suc_conv_app_nth)
qed

lemma find_sentence_endings_nonempty:
  "find P sentence_endings = Some punct \<Longrightarrow> punct \<noteq> []"
  by (auto simp: sentence_endings_def split: if_splits)

lemma bit_length_pos: "0 < n \<Longrightarrow> 0 < bit_length n"
  by (subst bit_length.simps) simp

lemma bit_length_lower: "0 < n \<Longrightarrow> 2 ^ (bit_length n - 1) \<le> n"
proof (induction n rule: bit_length.induct)
  case (1 n)
  show ?case
  proof (cases "n div 2 = 0")
    case True
    hence "bit_length (n div 2) = 0" by (subst bit_length.simps) simp
    hence "bit_length n = 1" using "1.prems" by (subst bit_length.simps) simp
    thus ?thesis using "1.prems" by simp
  next
    case False
    hence pos: "0 < n div 2" using "1.prems" by (simp add: pos_imp_zdiv_pos_iff)
    hence ih: "2 ^ (bit_length (n div 2) - 1) \<le> n div 2"
      using "1.IH" "1.prems" by simp
    have bl: "bit_length n = Suc (bit_length (n div 2))"
      using "1.prems" by (subst bit_length.simps) simp
    from bit_length_pos [OF pos] obtain k where k: "bit_length (n div 2) = Suc k"
      by (cases "bit_length (n div 2)") auto
    have "(2::int) ^ (bit_length n - 1) = 2 * 2 ^ (bit_length (n div 2) - 1)"
      by (simp add: bl k)
    also have "\<dots> \<le> 2 * (n div 2)" using ih by simp
    also have "\<dots> \<le> n" by simp
    finally show ?thesis .
  qed
qed

lemma round53_nonneg: "0 \<le> n \<Longrightarrow> 0 \<le> round53 n"
  by (auto simp: round53_def Let_def pos_imp_zdiv_nonneg_iff)

lemma pos_of_scaled: "(t::int) < p * 2 ^ 53 \<Longrightarrow> 0 \<le> t \<Longrightarrow> 0 \<le> p"
proof -
  assume "t < p * 2 ^ 53" "0 \<le> t"
  hence "0 < p * 2 ^ 53" by linarith
  thus ?thesis by (simp add: zero_less_mult_iff)
qed

lemma mul_0_7_nonneg: "mul_0_7 S = Inr t \<Longrightarrow> 0 \<le> S \<Longrightarrow> 0 \<le> t"
  by (auto simp: mul_0_7_def Let_def sgn_if round53_nonneg split: if_splits)

lemma round53_upper:
  assumes "0 \<le> n"
  shows "round53 n \<le> 2 * n"
proof (cases "bit_length n \<le> 53")
  case True
  hence "round53 n = n" by (simp add: round53_def)
  thus ?thesis using assms by simp
next
  case False
  define sh where "sh = bit_length n - 53"
  define m where "m = n div 2 ^ sh"
  have npos: "0 < n" using False assms
    by (cases "n = 0") (auto simp: bit_length.simps [of 0])
  have "round53 n = (if n mod 2 ^ sh > 2 ^ (sh - 1) \<or> (n mod 2 ^ sh = 2 ^ (sh - 1) \<and> odd m)
                     then m + 1 else m) * 2 ^ sh"
    using False by (simp add: round53_def Let_def sh_def m_def)
  hence "round53 n \<le> (m + 1) * 2 ^ sh" by (simp add: mult_right_mono)
  moreover have "m * 2 ^ sh \<le> n"
  proof -
    have "n = m * 2 ^ sh + n mod 2 ^ sh" unfolding m_def by (rule div_mult_mod_eq [symmetric])
    moreover have "0 \<le> n mod 2 ^ sh" by simp
    ultimately show ?thesis by linarith
  qed
  moreover have "(2::int) ^ sh \<le> n"
  proof -
    have "(2::int) ^ sh \<le> 2 ^ (bit_length n - 1)"
      by (rule power_increasing) (simp_all add: sh_def)
    also have "\<dots> \<le> n" using npos by (rule bit_length_lower)
    finally show ?thesis .
  qed
  ultimately show ?thesis by (simp add: algebra_simps)
qed

lemma mul_0_7_defined: "\<bar>S\<bar> < 2 ^ 1023 \<Longrightarrow> \<exists>t. mul_0_7 S = Inr t"
proof -
  assume b: "\<bar>S\<bar> < 2 ^ 1023"
  have "round53 \<bar>S\<bar> \<le> 2 * \<bar>S\<bar>" by (rule round53_upper) simp
  also have "\<dots> < 2 ^ 1024" using b by simp
  finally show ?thesis by (simp add: mul_0_7_def Let_def)
qed

section \<open>Facts about the windows\<close>

lemma length_py_slice: "i \<le> j \<Longrightarrow> int (length (py_slice s i j)) \<le> j - i"
  by (auto simp: py_slice_def py_bound_def Let_def)

lemma length_py_slice_prefix: "length (py_slice s 0 j) \<le> length s"
  by (simp add: py_slice_def Let_def)

lemma length_strip: "length (strip s) \<le> length s"
proof -
  have "length (strip s) \<le> length (dropWhile is_space s)"
    unfolding strip_def
    using length_dropWhile_le [of is_space "rev (dropWhile is_space s)"] by simp
  also have "\<dots> \<le> length s" by (rule length_dropWhile_le)
  finally show ?thesis .
qed

lemma window_length:
  assumes "0 \<le> S" "window text S start = Inr (chunk, e)"
  shows "int (length chunk) \<le> S"
proof -
  have a: "int (length (py_slice text start (start + S))) \<le> S"
    using length_py_slice [of start "start + S" "text"] assms(1) by simp
  have b: "int (length (py_slice (py_slice text start (start + S)) 0 j)) \<le> S" for j
    using length_py_slice_prefix [of "py_slice text start (start + S)" j] a by linarith
  show ?thesis using assms(2) a b
    by (auto simp: window_def Let_def split: if_splits sum.splits option.splits)
qed

lemma chunk_loop_windows:
  "chunk_loop text S O' start acc = Some r \<Longrightarrow>
   (\<forall>cs. r = Inr cs \<longrightarrow> (\<exists>ws. windows_from text S O' start ws \<and> cs = acc @ map (strip \<circ> fst) ws))"
proof (induction rule: chunk_loop.raw_induct[rotated 1, consumes 1])
  case (1 loop t S O' start acc r)
  show ?case
  proof (cases "start < int (length t)")
    case False
    with "1.hyps" have "r = Inr acc" by simp
    moreover have "windows_from t S O' start []" using False by simp
    ultimately show ?thesis by auto
  next
    case True
    show ?thesis
    proof (intro allI impI)
      fix cs assume r: "r = Inr cs"
      from True "1.hyps" r obtain chunk e where
        w: "window t S start = Inr (chunk, e)" and
        l: "loop t S O' (e - O') (acc @ [strip chunk]) = Some (Inr cs)"
        by (auto split: sum.splits prod.splits)
      from "1.IH" [OF l] obtain ws where
        "windows_from t S O' (e - O') ws" "cs = (acc @ [strip chunk]) @ map (strip \<circ> fst) ws"
        by blast
      hence "windows_from t S O' start ((chunk, e) # ws) \<and>
             cs = acc @ map (strip \<circ> fst) ((chunk, e) # ws)"
        using True w by simp
      thus "\<exists>ws. windows_from t S O' start ws \<and> cs = acc @ map (strip \<circ> fst) ws" by blast
    qed
  qed
qed

lemma windows_chunk_loop:
  "windows_from text S O' start ws \<Longrightarrow>
   chunk_loop text S O' start acc = Some (Inr (acc @ map (strip \<circ> fst) ws))"
proof (induction ws arbitrary: start acc)
  case Nil
  then show ?case by (subst chunk_loop.simps) simp
next
  case (Cons w ws)
  obtain chunk e where w: "w = (chunk, e)" by (cases w)
  from Cons.prems w have a: "start < int (length text)"
    "window text S start = Inr (chunk, e)" "windows_from text S O' (e - O') ws" by simp_all
  from Cons.IH [OF a(3), of "acc @ [strip chunk]"] a(1,2) w show ?case
    by (subst chunk_loop.simps) simp
qed

lemma windows_length:
  "0 \<le> S \<Longrightarrow> windows_from text S O' start ws \<Longrightarrow> \<forall>w \<in> set ws. int (length (fst w)) \<le> S"
proof (induction ws arbitrary: start)
  case Nil
  then show ?case by simp
next
  case (Cons w ws)
  obtain chunk e where w: "w = (chunk, e)" by (cases w)
  from Cons.prems(2) w have a: "window text S start = Inr (chunk, e)"
    "windows_from text S O' (e - O') ws" by simp_all
  from window_length [OF Cons.prems(1) a(1)] Cons.IH [OF Cons.prems(1) a(2)] w
  show ?case by simp
qed

lemma chunk_text_length:
  assumes "0 \<le> S" "chunk_text text S O' = Some (Inr cs)" "S < int (length text)"
  shows "\<forall>c \<in> set cs. int (length c) \<le> S"
proof -
  from assms(2,3) have "chunk_loop text S O' 0 [] = Some (Inr cs)"
    by (simp add: chunk_text_def)
  from chunk_loop_windows [OF this] obtain ws where
    ws: "windows_from text S O' 0 ws" "cs = map (strip \<circ> fst) ws" by auto
  from windows_length [OF assms(1) ws(1)] have "\<forall>w \<in> set ws. int (length (fst w)) \<le> S" .
  hence "int (length (strip (fst w))) \<le> S" if "w \<in> set ws" for w
    using length_strip [of "fst w"] that by fastforce
  thus ?thesis unfolding ws(2) by simp
qed

lemma py_slice_nonneg:
  "0 \<le> i \<Longrightarrow> 0 \<le> j \<Longrightarrow> py_slice s i j = take (nat j - nat i) (drop (nat i) s)"
  by (auto simp: py_slice_def py_bound_def Let_def min_def)

lemma window_unfold:
  assumes "mul_0_7 S = Inr t" "start + S < int (length text)"
  shows "window text S start =
           (case deciding_pair (py_slice text start (start + S)) S of
              None \<Rightarrow> Inr (py_slice text start (start + S), start + S)
            | Some punct \<Rightarrow>
                Inr (py_slice (py_slice text start (start + S)) 0
                       (rfind (py_slice text start (start + S)) punct + 1),
                     start + int (length
                       (py_slice (py_slice text start (start + S)) 0
                          (rfind (py_slice text start (start + S)) punct + 1)))))"
  using assms(2) find_break_find [OF assms(1), of "py_slice text start (start + S)" sentence_endings]
  by (simp add: window_def Let_def deciding_pair_def split: option.splits)

lemma deciding_pair_gt:
  "deciding_pair chunk S = Some punct \<Longrightarrow> mul_0_7 S = Inr t \<Longrightarrow> t < rfind chunk punct * 2 ^ 53"
  unfolding deciding_pair_def by (auto simp: find_Some_iff gt_0_7_def)

lemma deciding_pair_nonempty: "deciding_pair chunk S = Some punct \<Longrightarrow> punct \<noteq> []"
  unfolding deciding_pair_def by (rule find_sentence_endings_nonempty)

lemma occurs_at_less: "occurs_at s sub i \<Longrightarrow> sub \<noteq> [] \<Longrightarrow> i < length s"
  by (cases sub) (auto simp: occurs_at_def)

lemma window_end_bound:
  assumes "0 \<le> S" "window text S start = Inr (chunk, e)"
  shows "e \<le> start + S"
proof -
  have a: "int (length (py_slice text start (start + S))) \<le> S"
    using length_py_slice [of start "start + S" "text"] assms(1) by simp
  have b: "int (length (py_slice (py_slice text start (start + S)) 0 j)) \<le> S" for j
    using length_py_slice_prefix [of "py_slice text start (start + S)" j] a by linarith
  show ?thesis using assms(2) b
    by (auto simp: window_def Let_def split: if_splits sum.splits option.splits)
qed

lemma window_no_error: "mul_0_7 S = Inr t \<Longrightarrow> window text S start \<noteq> Inl e"
  using find_break_find [of S t "py_slice text start (start + S)" sentence_endings]
  by (auto simp: window_def Let_def split: option.splits)

text \<open>
  A loop that starts at or before position 0 with an overlap not below the chunk
  size never moves forward, so it returns no list.
\<close>

lemma chunk_loop_no_list:
  "chunk_loop text S O' start acc = Some r \<Longrightarrow>
   (start \<le> 0 \<and> 0 \<le> S \<and> S \<le> O' \<and> S < int (length text) \<longrightarrow> (\<forall>cs. r \<noteq> Inr cs))"
proof (induction rule: chunk_loop.raw_induct[rotated 1, consumes 1])
  case (1 loop t S O' start acc r)
  show ?case
  proof (intro impI allI)
    fix cs
    assume a: "start \<le> 0 \<and> 0 \<le> S \<and> S \<le> O' \<and> S < int (length t)"
    hence lt: "start < int (length t)" by linarith
    show "r \<noteq> Inr cs"
    proof
      assume r: "r = Inr cs"
      from lt "1.hyps" r obtain chunk e where
        w: "window t S start = Inr (chunk, e)" and
        l: "loop t S O' (e - O') (acc @ [strip chunk]) = Some (Inr cs)"
        by (auto split: sum.splits prod.splits)
      have "e \<le> start + S" using a w by (intro window_end_bound) simp_all
      hence "e - O' \<le> 0" using a by linarith
      with "1.IH" [OF l] a show False by blast
    qed
  qed
qed

lemma chunk_loop_no_error:
  "chunk_loop text S O' start acc = Some r \<Longrightarrow> (mul_0_7 S \<noteq> Inl OverflowError \<longrightarrow> (\<forall>e. r \<noteq> Inl e))"
proof (induction rule: chunk_loop.raw_induct[rotated 1, consumes 1])
  case (1 loop t S O' start acc r)
  show ?case
  proof (intro impI allI)
    fix e
    assume "mul_0_7 S \<noteq> Inl OverflowError"
    then obtain v where v: "mul_0_7 S = Inr v"
      by (auto simp: mul_0_7_def Let_def split: if_splits)
    show "r \<noteq> Inl e"
    proof
      assume r: "r = Inl e"
      show False
      proof (cases "start < int (length t)")
        case False
        with "1.hyps" r show False by simp
      next
        case True
        with "1.hyps" r window_no_error [OF v] obtain chunk e1 where
          "loop t S O' (e1 - O') (acc @ [strip chunk]) = Some (Inl e)"
          by (auto split: sum.splits prod.splits)
        from "1.IH" [OF this] v show False by simp
      qed
    qed
  qed
qed

lemma chunk_text_loops:
  assumes "0 \<le> S" "S \<le> O'" "S < int (length text)"
  shows "\<forall>cs. chunk_text text S O' \<noteq> Some (Inr cs)"
    and "S < 2 ^ 1023 \<Longrightarrow> chunk_text text S O' = None"
proof -
  have eq: "chunk_text text S O' = chunk_loop text S O' 0 []"
    using assms(3) by (simp add: chunk_text_def)
  show nl: "\<forall>cs. chunk_text text S O' \<noteq> Some (Inr cs)"
    unfolding eq using chunk_loop_no_list [of "text" S O' 0 "[]"] assms by blast
  assume "S < 2 ^ 1023"
  hence "\<bar>S\<bar> < 2 ^ 1023" using assms(1) by simp
  from mul_0_7_defined [OF this] have ne: "mul_0_7 S \<noteq> Inl OverflowError" by auto
  show "chunk_text text S O' = None"
  proof (cases "chunk_text text S O'")
    case None
    then show ?thesis .
  next
    case (Some r)
    with chunk_loop_no_error [of "text" S O' 0 "[]" r] ne eq have "\<forall>e. r \<noteq> Inl e" by simp
    moreover from nl Some have "\<forall>cs. r \<noteq> Inr cs" by simp
    ultimately show ?thesis by (cases r) auto
  qed
qed

text \<open>
  One pass of the loop from a position inside the text, for an overlap below the
  chunk size whose predecessor is not beyond the threshold: the window is the slice
  of the text from \<open>start\<close> to the new \<open>end\<close>, and the new \<open>end\<close> lies more than
  the overlap after \<open>start\<close>.
\<close>

lemma window_step:
  assumes t: "mul_0_7 S = Inr t" and thr: "(O' - 1) * 2 ^ 53 \<le> t"
      and O: "0 \<le> O'" "O' < S"
      and st: "0 \<le> start" "start < int (length text)"
  shows "\<exists>chunk e. window text S start = Inr (chunk, e) \<and>
           chunk = take (nat e - nat start) (drop (nat start) text) \<and>
           start + O' < e \<and> e \<le> start + S"
proof (cases "start + S < int (length text)")
  case False
  hence "window text S start = Inr (py_slice text start (start + S), start + S)"
    by (simp add: window_def Let_def)
  moreover have "py_slice text start (start + S) =
      take (nat (start + S) - nat start) (drop (nat start) text)"
    using st(1) O by (intro py_slice_nonneg) simp_all
  ultimately show ?thesis using O by auto
next
  case True
  let ?chunk = "py_slice text start (start + S)"
  have S: "0 < S" using O by simp
  have c0: "?chunk = take (nat (start + S) - nat start) (drop (nat start) text)"
    using st(1) S by (intro py_slice_nonneg) simp_all
  have len0: "int (length ?chunk) \<le> S"
    using length_py_slice [of start "start + S" "text"] S by simp
  show ?thesis
  proof (cases "deciding_pair ?chunk S")
    case None
    with window_unfold [OF t True] have "window text S start = Inr (?chunk, start + S)" by simp
    with c0 O show ?thesis by auto
  next
    case (Some punct)
    define p where "p = rfind ?chunk punct"
    have "t < p * 2 ^ 53" unfolding p_def using Some t by (rule deciding_pair_gt)
    with thr have "(O' - 1) * 2 ^ 53 < p * 2 ^ 53" by linarith
    hence beyond: "O' \<le> p" by simp
    hence ppos: "0 \<le> p" using O(1) by simp
    have "occurs_at ?chunk punct (nat p)" unfolding p_def using ppos
      by (intro rfind_occurs) (simp add: p_def)
    hence plt: "nat p < length ?chunk"
      using deciding_pair_nonempty [OF Some] by (rule occurs_at_less)
    have cut: "py_slice ?chunk 0 (p + 1) = take (nat p + 1) ?chunk"
      using ppos by (rule py_slice_prefix)
    have lcut: "length (py_slice ?chunk 0 (p + 1)) = nat p + 1"
      unfolding cut using plt by simp
    have w: "window text S start = Inr (py_slice ?chunk 0 (p + 1), start + p + 1)"
      using window_unfold [OF t True] Some lcut ppos by (simp add: p_def)
    have "take (nat p + 1) ?chunk = take (nat p + 1) (drop (nat start) text)"
    proof -
      have "nat p + 1 \<le> nat (start + S) - nat start" using plt len0 S st(1) by linarith
      thus ?thesis by (subst c0) (simp add: min_def)
    qed
    hence "py_slice ?chunk 0 (p + 1) =
           take (nat (start + p + 1) - nat start) (drop (nat start) text)"
      using cut ppos st(1) by (simp add: nat_add_distrib)
    moreover have "start + O' < start + p + 1" using beyond by linarith
    moreover have "start + p + 1 \<le> start + S" using plt len0 by linarith
    ultimately show ?thesis using w by blast
  qed
qed

lemma windows_exist:
  assumes t: "mul_0_7 S = Inr t" and thr: "(O' - 1) * 2 ^ 53 \<le> t"
      and O: "0 \<le> O'" "O' < S"
  shows "0 \<le> start \<Longrightarrow> \<exists>ws. windows_from text S O' start ws"
proof (induction "nat (int (length text) - start)" arbitrary: start rule: less_induct)
  case less
  show ?case
  proof (cases "start < int (length text)")
    case False
    hence "windows_from text S O' start []" by simp
    thus ?thesis by blast
  next
    case True
    from window_step [OF t thr O less.prems True] obtain chunk e where
      w: "window text S start = Inr (chunk, e)" and adv: "start + O' < e" by blast
    have "nat (int (length text) - (e - O')) < nat (int (length text) - start)"
      using adv True by linarith
    moreover have "0 \<le> e - O'" using adv less.prems by linarith
    ultimately obtain ws where "windows_from text S O' (e - O') ws"
      using less.hyps by blast
    hence "windows_from text S O' start ((chunk, e) # ws)" using True w by simp
    thus ?thesis by blast
  qed
qed

lemma windows_tile:
  assumes t: "mul_0_7 S = Inr t" and thr: "(O' - 1) * 2 ^ 53 \<le> t"
      and O: "0 \<le> O'" "O' < S"
  shows "0 \<le> start \<Longrightarrow> windows_from text S O' start ws \<Longrightarrow>
         concat (map (drop (nat O') \<circ> fst) ws) = drop (nat (start + O')) text"
proof (induction ws arbitrary: start)
  case Nil
  then show ?case using O(1) by simp
next
  case (Cons w ws)
  obtain chunk e where w: "w = (chunk, e)" by (cases w)
  from Cons.prems(2) w have a: "start < int (length text)"
    "window text S start = Inr (chunk, e)" "windows_from text S O' (e - O') ws" by simp_all
  from window_step [OF t thr O Cons.prems(1) a(1)] a(2) have
    c: "chunk = take (nat e - nat start) (drop (nat start) text)" and adv: "start + O' < e"
    by auto
  have "0 \<le> e - O'" using adv Cons.prems(1) by linarith
  from Cons.IH [OF this a(3)] have rest:
    "concat (map (drop (nat O') \<circ> fst) ws) = drop (nat e) text" by (simp add: comp_def)
  define a' o' b where "a' = nat start" and "o' = nat O'" and "b = nat e"
  have le: "a' + o' \<le> b" using adv Cons.prems(1) O(1) by (simp add: a'_def o'_def b_def)
  have "drop o' (take (b - a') (drop a' text)) @ drop b text = drop (a' + o') text"
  proof -
    have "drop o' (take (b - a') (drop a' text)) = take (b - a' - o') (drop (a' + o') text)"
      by (simp add: drop_take add.commute)
    moreover have "drop b text = drop (b - a' - o') (drop (a' + o') text)"
      using le by simp
    ultimately show ?thesis by (simp only: append_take_drop_id)
  qed
  moreover have "nat (start + O') = a' + o'"
    using Cons.prems(1) O(1) by (simp add: a'_def o'_def nat_add_distrib)
  ultimately show ?case using w c rest by (simp add: a'_def o'_def b_def comp_def)
qed

lemma chunk_text_tiles:
  assumes t: "mul_0_7 S = Inr t" and thr: "(O' - 1) * 2 ^ 53 \<le> t"
      and O: "0 \<le> O'" "O' < S"
      and long: "S < int (length text)"
  shows "\<exists>ws. windows_from text S O' 0 ws \<and>
              chunk_text text S O' = Some (Inr (map (strip \<circ> fst) ws)) \<and>
              concat (non_overlapping_spans O' (map fst ws)) = text"
proof -
  from windows_exist [OF t thr O, of 0 "text"] obtain ws where
    ws: "windows_from text S O' 0 ws" by auto
  have pos: "(0::int) < int (length text)" using O long by linarith
  with ws obtain chunk e ws' where eq: "ws = (chunk, e) # ws'" by (cases ws) auto
  with ws have a: "window text S 0 = Inr (chunk, e)" "windows_from text S O' (e - O') ws'"
    by simp_all
  from window_step [OF t thr O _ pos] a(1) have
    c: "chunk = take (nat e) text" and adv: "O' < e" by auto
  have "0 \<le> e - O'" using adv by simp
  from windows_tile [OF t thr O this a(2)] have
    "concat (map (drop (nat O') \<circ> fst) ws') = drop (nat e) text" by (simp add: comp_def)
  hence "concat (non_overlapping_spans O' (map fst ws)) = text"
    by (simp add: non_overlapping_spans_def eq c comp_def)
  moreover have "chunk_text text S O' = Some (Inr (map (strip \<circ> fst) ws))"
    using windows_chunk_loop [OF ws, of "[]"] long by (simp add: chunk_text_def)
  ultimately show ?thesis using ws by blast
qed

section \<open>Overlap not below the chunk size\<close>

text \<open>
  C4, as the claim states it, fails: nothing is validated and nothing is raised.
  With overlap 5 and chunk size 5 the short text comes back as one chunk; with
  overlap 2 and chunk size 2 the call on a longer text does not fail fast but never
  returns.
\<close>

theorem chunk_text_overlap_not_validated_counterexample:
  "(5::int) \<ge> 5 \<and> chunk_text ''ab'' 5 5 = Some (Inr [''ab'']) \<and>
   chunk_text ''ab'' 5 5 \<noteq> Some (Inl InvalidArgument) \<and>
   (2::int) \<ge> 2 \<and> chunk_text ''abc'' 2 2 = None \<and>
   chunk_text ''abc'' 2 2 \<noteq> Some (Inl InvalidArgument)"
proof -
  have "chunk_text ''abc'' 2 2 = None"
    by (rule chunk_text_loops(2)) simp_all
  thus ?thesis by (simp add: chunk_text_def)
qed

text \<open>
  C4, amended. For an overlap that is not below the chunk size, \<^verbatim>\<open>chunk_text\<close>
  never fails with InvalidArgument. A text no longer than the chunk size is returned
  as the single chunk. On a text longer than a chunk size that is not negative the
  call does not fail fast and returns no list: the only exception it can raise is
  the OverflowError of the float product, and for a chunk size below \<open>2 ^ 1023\<close> it
  raises nothing and loops for ever.
\<close>

theorem chunk_text_overlap_not_below_size:
  assumes "chunk_size \<le> overlap"
  shows "chunk_text text chunk_size overlap \<noteq> Some (Inl InvalidArgument) \<and>
         (int (length text) \<le> chunk_size \<longrightarrow>
            chunk_text text chunk_size overlap = Some (Inr [text])) \<and>
         (0 \<le> chunk_size \<and> chunk_size < int (length text) \<longrightarrow>
            (\<forall>chunks. chunk_text text chunk_size overlap \<noteq> Some (Inr chunks)) \<and>
            (\<forall>e. chunk_text text chunk_size overlap = Some (Inl e) \<longrightarrow> e = OverflowError) \<and>
            (chunk_size < 2 ^ 1023 \<longrightarrow> chunk_text text chunk_size overlap = None))"
proof (intro conjI impI allI)
  show "chunk_text text chunk_size overlap \<noteq> Some (Inl InvalidArgument)"
    using chunk_text_Inl [of "text" chunk_size overlap InvalidArgument] by auto
next
  assume "int (length text) \<le> chunk_size"
  thus "chunk_text text chunk_size overlap = Some (Inr [text])" by (simp add: chunk_text_def)
next
  fix chunks
  assume "0 \<le> chunk_size \<and> chunk_size < int (length text)"
  thus "chunk_text text chunk_size overlap \<noteq> Some (Inr chunks)"
    using chunk_text_loops(1) [of chunk_size overlap "text"] assms by simp
next
  fix e
  assume "chunk_text text chunk_size overlap = Some (Inl e)"
  thus "e = OverflowError" by (rule chunk_text_Inl)
next
  assume "0 \<le> chunk_size \<and> chunk_size < int (length text)" "chunk_size < 2 ^ 1023"
  thus "chunk_text text chunk_size overlap = None"
    using chunk_text_loops(2) [of chunk_size overlap "text"] assms by simp
qed

theorem chunk_text_overlap_not_below_size_witness:
  "(2::int) \<le> 3 \<and>
   int (length ''ab'') \<le> 2 \<and> chunk_text ''ab'' 2 3 = Some (Inr [''ab'']) \<and>
   (0::int) \<le> 2 \<and> 2 < int (length ''abcdef'') \<and> (2::int) < 2 ^ 1023 \<and>
   chunk_text ''abcdef'' 2 3 = None \<and>
   chunk_text ''abcdef'' 2 3 \<noteq> Some (Inl InvalidArgument)"
proof -
  have h: "(2::int) \<le> 3" by simp
  from chunk_text_overlap_not_below_size [OF h, of "''ab''"]
  have a: "chunk_text ''ab'' 2 3 = Some (Inr [''ab''])" by simp
  from chunk_text_overlap_not_below_size [OF h, of "''abcdef''"]
  have b: "chunk_text ''abcdef'' 2 3 = None" by simp
  from a b show ?thesis by simp
qed

section \<open>The cut point of a window\<close>

text \<open>
  C6, as the claim states it, fails: in a window of 20 characters with \<open>. \<close> at
  position 15 and \<open>! \<close> at position 17, both beyond the threshold 14.0, the
  maximal position is 17, but the loop tries \<open>. \<close> first and cuts at 15.
\<close>

theorem cut_not_maximal_counterexample:
  "spec_cut ''aaaaaaaaaaaaaaa. ! b'' 20 = Inr (Some 17) \<and>
   find_break ''aaaaaaaaaaaaaaa. ! b'' 20 sentence_endings = Inr (Some 15) \<and>
   window ''aaaaaaaaaaaaaaa. ! bbbbbb'' 20 0 = Inr (''aaaaaaaaaaaaaaa.'', 16)"
  by code_simp

text \<open>
  C6, amended. For a window that does not reach the end of the text (and a chunk
  size whose product with 0.7 does not overflow), the cut is decided by the first
  pair, in the order \<open>. \<close>, \<open>.\n\<close>, \<open>! \<close>, \<open>!\n\<close>, \<open>? \<close>, \<open>?\n\<close>, whose last
  occurrence in the window lies beyond \<^verbatim>\<open>chunk_size * 0.7\<close>: the window is cut right
  after the punctuation character of that last occurrence, and \<open>end\<close> moves there.
  If no pair has such an occurrence the window is left whole. For a chunk size that
  is not negative the cut position is the last occurrence of the deciding pair, and
  the cut window is the window up to that position followed by the punctuation
  character.
\<close>

theorem window_cut_rule:
  assumes "\<bar>chunk_size\<bar> < 2 ^ 1023"
      and "start + chunk_size < int (length text)"
      and "chunk = py_slice text start (start + chunk_size)"
  shows "window text chunk_size start =
           (case deciding_pair chunk chunk_size of
              None \<Rightarrow> Inr (chunk, start + chunk_size)
            | Some punct \<Rightarrow>
                Inr (py_slice chunk 0 (rfind chunk punct + 1),
                     start + int (length (py_slice chunk 0 (rfind chunk punct + 1)))))
       \<and> (\<forall>punct. deciding_pair chunk chunk_size = Some punct \<longrightarrow> 0 \<le> chunk_size \<longrightarrow>
             occurs_at chunk punct (nat (rfind chunk punct)) \<and>
             (\<forall>i. occurs_at chunk punct i \<longrightarrow> int i \<le> rfind chunk punct) \<and>
             py_slice chunk 0 (rfind chunk punct + 1)
               = take (nat (rfind chunk punct)) chunk @ [hd punct])"
proof -
  from mul_0_7_defined [OF assms(1)] obtain t where t: "mul_0_7 chunk_size = Inr t" ..
  have w: "window text chunk_size start =
           (case deciding_pair chunk chunk_size of
              None \<Rightarrow> Inr (chunk, start + chunk_size)
            | Some punct \<Rightarrow>
                Inr (py_slice chunk 0 (rfind chunk punct + 1),
                     start + int (length (py_slice chunk 0 (rfind chunk punct + 1)))))"
    unfolding assms(3) using t assms(2) by (rule window_unfold)
  have r: "occurs_at chunk punct (nat (rfind chunk punct))
           \<and> (\<forall>i. occurs_at chunk punct i \<longrightarrow> int i \<le> rfind chunk punct)
           \<and> py_slice chunk 0 (rfind chunk punct + 1)
               = take (nat (rfind chunk punct)) chunk @ [hd punct]"
    if dp: "deciding_pair chunk chunk_size = Some punct" and s: "0 \<le> chunk_size" for punct
  proof -
    have "t < rfind chunk punct * 2 ^ 53" using dp t by (rule deciding_pair_gt)
    moreover have "0 \<le> t" using t s by (rule mul_0_7_nonneg)
    ultimately have pos: "0 \<le> rfind chunk punct" by (rule pos_of_scaled)
    hence occ: "occurs_at chunk punct (nat (rfind chunk punct))" by (rule rfind_occurs)
    have ne: "punct \<noteq> []" using dp by (rule deciding_pair_nonempty)
    have "py_slice chunk 0 (rfind chunk punct + 1) = take (Suc (nat (rfind chunk punct))) chunk"
      using py_slice_prefix [OF pos] by simp
    also have "\<dots> = take (nat (rfind chunk punct)) chunk @ [hd punct]"
      using occ ne by (rule take_Suc_occurs)
    finally show ?thesis using occ rfind_last by blast
  qed
  from w r show ?thesis by blast
qed

theorem window_cut_rule_witness:
  "\<bar>20 :: int\<bar> < 2 ^ 1023 \<and>
   0 + 20 < int (length ''aaaaaaaaaaaaaaa. ! bbbbbb'') \<and>
   ''aaaaaaaaaaaaaaa. ! b'' = py_slice ''aaaaaaaaaaaaaaa. ! bbbbbb'' 0 (0 + 20) \<and>
   deciding_pair ''aaaaaaaaaaaaaaa. ! b'' 20 = Some ''. '' \<and>
   rfind ''aaaaaaaaaaaaaaa. ! b'' ''. '' = 15 \<and>
   window ''aaaaaaaaaaaaaaa. ! bbbbbb'' 20 0 = Inr (''aaaaaaaaaaaaaaa.'', 16)"
proof -
  have h1: "\<bar>20 :: int\<bar> < 2 ^ 1023" by simp
  have h2: "0 + 20 < int (length ''aaaaaaaaaaaaaaa. ! bbbbbb'')" by simp
  have h3: "''aaaaaaaaaaaaaaa. ! b'' = py_slice ''aaaaaaaaaaaaaaa. ! bbbbbb'' 0 (0 + 20)"
    by code_simp
  have dp: "deciding_pair ''aaaaaaaaaaaaaaa. ! b'' 20 = Some ''. ''" by code_simp
  have rf: "rfind ''aaaaaaaaaaaaaaa. ! b'' ''. '' = 15" by code_simp
  have cut: "py_slice ''aaaaaaaaaaaaaaa. ! b'' 0 (15 + 1) = ''aaaaaaaaaaaaaaa.''" by code_simp
  from window_cut_rule [OF h1 h2 h3] dp rf cut h1 h2 h3 show ?thesis by simp
qed

section \<open>Chunks and the text they come from\<close>

text \<open>
  A run with chunk size 20 and overlap 17: the first window is cut to 16 characters,
  so the second starts at \<open>-1\<close> and is empty.
\<close>

lemma windows_overlap_17:
  "window ''aaaaaaaaaaaaaaa. bbbb'' 20 0 = Inr (''aaaaaaaaaaaaaaa.'', 16)"
  "window ''aaaaaaaaaaaaaaa. bbbb'' 20 (- 1) = Inr ([], 19)"
  "window ''aaaaaaaaaaaaaaa. bbbb'' 20 2 = Inr (''aaaaaaaaaaaaa. bbbb'', 22)"
  "window ''aaaaaaaaaaaaaaa. bbbb'' 20 5 = Inr (''aaaaaaaaaa. bbbb'', 25)"
  "window ''aaaaaaaaaaaaaaa. bbbb'' 20 8 = Inr (''aaaaaaa. bbbb'', 28)"
  "window ''aaaaaaaaaaaaaaa. bbbb'' 20 11 = Inr (''aaaa. bbbb'', 31)"
  "window ''aaaaaaaaaaaaaaa. bbbb'' 20 14 = Inr (''a. bbbb'', 34)"
  "window ''aaaaaaaaaaaaaaa. bbbb'' 20 17 = Inr (''bbbb'', 37)"
  "window ''aaaaaaaaaaaaaaa. bbbb'' 20 20 = Inr (''b'', 40)"
  by code_simp+

lemma chunk_text_overlap_17:
  "chunk_text ''aaaaaaaaaaaaaaa. bbbb'' 20 17 =
     Some (Inr [''aaaaaaaaaaaaaaa.'', [], ''aaaaaaaaaaaaa. bbbb'', ''aaaaaaaaaa. bbbb'',
                ''aaaaaaa. bbbb'', ''aaaa. bbbb'', ''a. bbbb'', ''bbbb'', ''b''])"
proof -
  let ?ws = "[(''aaaaaaaaaaaaaaa.'', 16 :: int), ([], 19), (''aaaaaaaaaaaaa. bbbb'', 22),
      (''aaaaaaaaaa. bbbb'', 25), (''aaaaaaa. bbbb'', 28), (''aaaa. bbbb'', 31),
      (''a. bbbb'', 34), (''bbbb'', 37), (''b'', 40)]"
  have "windows_from ''aaaaaaaaaaaaaaa. bbbb'' 20 17 0 ?ws"
    by (simp add: windows_overlap_17)
  from windows_chunk_loop [OF this, of "[]"]
  have "chunk_text ''aaaaaaaaaaaaaaa. bbbb'' 20 17 = Some (Inr (map (strip \<circ> fst) ?ws))"
    by (simp add: chunk_text_def)
  moreover have "map (strip \<circ> fst) ?ws =
      [''aaaaaaaaaaaaaaa.'', [], ''aaaaaaaaaaaaa. bbbb'', ''aaaaaaaaaa. bbbb'',
       ''aaaaaaa. bbbb'', ''aaaa. bbbb'', ''a. bbbb'', ''bbbb'', ''b'']"
    by code_simp
  ultimately show ?thesis by simp
qed

text \<open>
  C7, as the claim states it, fails, in two ways. With chunk size 5 and no overlap
  the text \<open>aaaa bbbb\<close> gives the chunks \<open>aaaa\<close> and \<open>bbbb\<close>: both are within the
  size, but the space between them was trimmed away, so their spans do not give the
  text back. With chunk size 20 and overlap 17 nothing is trimmed from the chunks of
  \<open>aaaaaaaaaaaaaaa. bbbb\<close>, but the window after the cut starts before the text, and
  the spans of the chunks miss the three characters after the full stop.
\<close>

theorem chunks_do_not_reconstruct_counterexample:
  "5 < int (length ''aaaa bbbb'') \<and>
   chunk_text ''aaaa bbbb'' 5 0 = Some (Inr [''aaaa'', ''bbbb'']) \<and>
   concat (non_overlapping_spans 0 [''aaaa'', ''bbbb'']) \<noteq> ''aaaa bbbb'' \<and>
   20 < int (length ''aaaaaaaaaaaaaaa. bbbb'') \<and>
   chunk_text ''aaaaaaaaaaaaaaa. bbbb'' 20 17 =
     Some (Inr [''aaaaaaaaaaaaaaa.'', [], ''aaaaaaaaaaaaa. bbbb'', ''aaaaaaaaaa. bbbb'',
                ''aaaaaaa. bbbb'', ''aaaa. bbbb'', ''a. bbbb'', ''bbbb'', ''b'']) \<and>
   concat (non_overlapping_spans 17
             [''aaaaaaaaaaaaaaa.'', [], ''aaaaaaaaaaaaa. bbbb'', ''aaaaaaaaaa. bbbb'',
              ''aaaaaaa. bbbb'', ''aaaa. bbbb'', ''a. bbbb'', ''bbbb'', ''b''])
     \<noteq> ''aaaaaaaaaaaaaaa. bbbb''"
proof -
  have a: "chunk_text ''aaaa bbbb'' 5 0 = Some (Inr [''aaaa'', ''bbbb''])" by code_simp
  have b: "concat (non_overlapping_spans 0 [''aaaa'', ''bbbb'']) \<noteq> ''aaaa bbbb''"
    by (simp add: non_overlapping_spans_def)
  have c: "concat (non_overlapping_spans 17
             [''aaaaaaaaaaaaaaa.'', [], ''aaaaaaaaaaaaa. bbbb'', ''aaaaaaaaaa. bbbb'',
              ''aaaaaaa. bbbb'', ''aaaa. bbbb'', ''a. bbbb'', ''bbbb'', ''b''])
     = ''aaaaaaaaaaaaaaa.bb''"
    by (simp add: non_overlapping_spans_def)
  from a b c chunk_text_overlap_17 show ?thesis by simp
qed

text \<open>
  C7, amended. For a text strictly longer than a chunk size that is not negative,
  every chunk \<^verbatim>\<open>chunk_text\<close> returns has length at most the chunk size. When moreover
  the overlap is not negative and below the chunk size, and the overlap less one is
  not greater than \<^verbatim>\<open>chunk_size * 0.7\<close> as the source computes it, \<^verbatim>\<open>chunk_text\<close>
  returns; each returned chunk is the trimmed form of one window of the loop, and the
  non-overlapping spans of the windows before trimming concatenate to the original
  text.
\<close>

theorem chunk_text_windows:
  assumes "chunk_size < int (length text)" and "0 \<le> chunk_size"
  shows "(\<forall>cs. chunk_text text chunk_size overlap = Some (Inr cs) \<longrightarrow>
               (\<forall>c \<in> set cs. int (length c) \<le> chunk_size)) \<and>
         (0 \<le> overlap \<and> overlap < chunk_size \<and>
          gt_0_7 (overlap - 1) chunk_size = Inr False \<longrightarrow>
            (\<exists>ws. windows_from text chunk_size overlap 0 ws \<and>
                  chunk_text text chunk_size overlap = Some (Inr (map (strip \<circ> fst) ws)) \<and>
                  concat (non_overlapping_spans overlap (map fst ws)) = text))"
proof (intro conjI allI impI)
  fix cs assume "chunk_text text chunk_size overlap = Some (Inr cs)"
  with assms(2) show "\<forall>c \<in> set cs. int (length c) \<le> chunk_size"
    using assms(1) by (rule chunk_text_length)
next
  assume a: "0 \<le> overlap \<and> overlap < chunk_size \<and>
             gt_0_7 (overlap - 1) chunk_size = Inr False"
  then obtain t where t: "mul_0_7 chunk_size = Inr t" and thr: "(overlap - 1) * 2 ^ 53 \<le> t"
    by (auto simp: gt_0_7_def split: sum.splits)
  from a have "0 \<le> overlap" "overlap < chunk_size" by simp_all
  from chunk_text_tiles [OF t thr this assms(1)]
  show "\<exists>ws. windows_from text chunk_size overlap 0 ws \<and>
             chunk_text text chunk_size overlap = Some (Inr (map (strip \<circ> fst) ws)) \<and>
             concat (non_overlapping_spans overlap (map fst ws)) = text" .
qed

theorem chunk_text_windows_witness:
  "10 < int (length ''abcdefgh. ij'') \<and> (0::int) \<le> 10 \<and>
   chunk_text ''abcdefgh. ij'' 10 7
     = Some (Inr [''abcdefgh.'', ''cdefgh. ij'', ''fgh. ij'', ''. ij'', ''j'']) \<and>
   int (length ''abcdefgh.'') \<le> 10 \<and> int (length ''cdefgh. ij'') \<le> 10 \<and>
   int (length ''fgh. ij'') \<le> 10 \<and> int (length ''. ij'') \<le> 10 \<and> int (length ''j'') \<le> 10 \<and>
   (0::int) \<le> 7 \<and> (7::int) < 10 \<and> gt_0_7 (7 - 1) 10 = Inr False \<and>
   (\<exists>ws. windows_from ''abcdefgh. ij'' 10 7 0 ws \<and>
         chunk_text ''abcdefgh. ij'' 10 7 = Some (Inr (map (strip \<circ> fst) ws)) \<and>
         concat (non_overlapping_spans 7 (map fst ws)) = ''abcdefgh. ij'')"
proof -
  have h1: "10 < int (length ''abcdefgh. ij'')" by simp
  have h2: "(0::int) \<le> 10" by simp
  have c: "chunk_text ''abcdefgh. ij'' 10 7
     = Some (Inr [''abcdefgh.'', ''cdefgh. ij'', ''fgh. ij'', ''. ij'', ''j''])" by code_simp
  have g: "gt_0_7 (7 - 1) 10 = Inr False" by code_simp
  have p: "(0::int) \<le> 7 \<and> (7::int) < 10" by simp
  from chunk_text_windows [OF h1 h2, of 7] p g
  have "\<exists>ws. windows_from ''abcdefgh. ij'' 10 7 0 ws \<and>
         chunk_text ''abcdefgh. ij'' 10 7 = Some (Inr (map (strip \<circ> fst) ws)) \<and>
         concat (non_overlapping_spans 7 (map fst ws)) = ''abcdefgh. ij''"
    by blast
  with h1 c p g show ?thesis by simp
qed

end
